theory Spec2Isabelle
  imports Complex_Main "HOL-Library.Multiset"
begin

section \<open>Data model\<close>

text \<open>
  One row of the per-gameweek player table (a pandas DataFrame in the source). Only the
  columns the rule engine reads are kept. Prices are integers in tenths of a million,
  \<open>expected_points\<close> is only ever compared, so it is a real number here, and
  \<open>unavailable\<close> is the 0/1 flag of the table.
\<close>

record player =
  player_id :: int
  name :: string
  position :: string
  team :: string
  cost :: int
  points :: int
  minutes :: int
  expected_points :: real
  unavailable :: int

text \<open>The exceptions the modelled functions can raise.\<close>

datatype error =
    KeyError
  | IndexError
  | OverflowError  \<comment> \<open>int too large to convert to float\<close>
  | EmptySequence  \<comment> \<open>ValueError: max() arg is an empty sequence\<close>
  | OptimizationFailed  \<comment> \<open>ValueError: Optimization failed with status ...\<close>
  | NoSolution  \<comment> \<open>ValueError: MiniZinc solver failed with status ...\<close>
  | DuplicatePlayerIds  \<comment> \<open>ValueError: More than 1 GW data detected\<close>
  | BenchGKCount nat  \<comment> \<open>ValueError: Expected exactly 1 bench GK, found n\<close>
  | BenchOutfieldCount nat  \<comment> \<open>ValueError: Expected exactly 3 bench outfield players, found n\<close>

section \<open>Transfer state: selling prices\<close>

text \<open>
  Python's \<open>float(n)\<close> for an integer \<open>n\<close>, which is also what \<open>0.5 * n\<close> first does to
  \<open>n\<close>: the nearest binary64 number, that is the nearest number with a significand of 53
  bits, a tie going to the even significand, and OverflowError when the rounded
  magnitude reaches \<open>2 ^ 1024\<close>. The result is an integer again, so it is kept as one.
\<close>

fun bit_length :: "nat \<Rightarrow> nat" where
  "bit_length n = (if n = 0 then 0 else Suc (bit_length (n div 2)))"

definition round_to_53_bits :: "nat \<Rightarrow> nat" where
  "round_to_53_bits m =
     (if bit_length m \<le> 53 then m
      else
        (let k = bit_length m - 53;
             q = m div 2 ^ k;
             r = m mod 2 ^ k;
             half = 2 ^ (k - 1)
         in (if r > half \<or> (r = half \<and> odd q) then q + 1 else q) * 2 ^ k))"

definition float_of_int :: "int \<Rightarrow> error + int" where
  "float_of_int n =
     (let v = round_to_53_bits (nat \<bar>n\<bar>)
      in if v \<ge> 2 ^ 1024 then Inl OverflowError else Inr (sgn n * int v))"

text \<open>
  \<open>math.ceil(0.5 * profit)\<close>: the integer is made a float, halving a float is exact, and
  the ceiling of the half is an exact integer.
\<close>

definition ceil_half :: "int \<Rightarrow> error + int" where
  "ceil_half profit =
     (case float_of_int profit of
        Inl e \<Rightarrow> Inl e
      | Inr v \<Rightarrow> Inr \<lceil>0.5 * real_of_int v\<rceil>)"

text \<open>Body of the loop of \<open>optimize_post_gw1_step1\<close> (MILP), lines 60 to 67.\<close>

definition milp_selling_price :: "int \<Rightarrow> int \<Rightarrow> error + int" where
  "milp_selling_price current_price purchase_price =
     (if current_price > purchase_price then
        (let profit = current_price - purchase_price
         in case ceil_half profit of
              Inl e \<Rightarrow> Inl e
            | Inr half \<Rightarrow> Inr (purchase_price + half))
      else Inr current_price)"

text \<open>
  The loop itself: \<open>selling_prices[pid]\<close> is filled for every row of the table, reading
  \<open>p0[pid]\<close>, which raises KeyError when the purchase-price dict has no entry.
\<close>

fun milp_selling_prices_loop ::
  "player list \<Rightarrow> (int \<rightharpoonup> int) \<Rightarrow> (int \<rightharpoonup> int) \<Rightarrow> error + (int \<rightharpoonup> int)" where
  "milp_selling_prices_loop [] p0 selling_prices = Inr selling_prices"
| "milp_selling_prices_loop (r # rs) p0 selling_prices =
     (case p0 (player_id r) of
        None \<Rightarrow> Inl KeyError
      | Some purchase_price \<Rightarrow>
          (case milp_selling_price (cost r) purchase_price of
             Inl e \<Rightarrow> Inl e
           | Inr sp \<Rightarrow>
               milp_selling_prices_loop rs p0 (selling_prices(player_id r \<mapsto> sp))))"

text \<open>
  Lines 47 to 67 of \<open>optimize_post_gw1_step1\<close>: the table must hold each player id once,
  then the selling prices are computed.
\<close>

definition milp_selling_prices :: "player list \<Rightarrow> (int \<rightharpoonup> int) \<Rightarrow> error + (int \<rightharpoonup> int)" where
  "milp_selling_prices players_df p0 =
     (if \<not> distinct (map player_id players_df) then Inl DuplicatePlayerIds
      else milp_selling_prices_loop players_df p0 Map.empty)"

text \<open>
  Lines 49 to 54 of \<open>calculate_selling_prices\<close> (MiniZinc path), for the current price
  and the purchase price of one row.
\<close>

definition cp_selling_price :: "int \<Rightarrow> int \<Rightarrow> error + int" where
  "cp_selling_price current_price purchase_price =
     (if current_price > purchase_price \<and> purchase_price > 0 then
        (let profit = current_price - purchase_price
         in case ceil_half profit of
              Inl e \<Rightarrow> Inl e
            | Inr half \<Rightarrow> Inr (purchase_price + half))
      else Inr (if purchase_price > 0 then current_price else 0))"

text \<open>
  \<open>player_id_to_idx = {pid: idx + 1 for idx, pid in enumerate(player_ids)}\<close>: a later
  occurrence of an id overwrites an earlier one.
\<close>

fun player_id_to_idx_from :: "nat \<Rightarrow> int list \<Rightarrow> (int \<rightharpoonup> nat) \<Rightarrow> (int \<rightharpoonup> nat)" where
  "player_id_to_idx_from idx [] m = m"
| "player_id_to_idx_from idx (pid # pids) m = player_id_to_idx_from (Suc idx) pids (m(pid \<mapsto> idx + 1))"

definition player_id_to_idx :: "player list \<Rightarrow> (int \<rightharpoonup> nat)" where
  "player_id_to_idx players_df = player_id_to_idx_from 0 (map player_id players_df) Map.empty"

text \<open>
  Reading a list at an integer index: a negative index counts from the end, an index
  outside the list raises IndexError.
\<close>

definition py_index :: "'a list \<Rightarrow> int \<Rightarrow> error + 'a" where
  "py_index xs i =
     (if 0 \<le> i \<and> i < int (length xs) then Inr (xs ! nat i)
      else if i < 0 \<and> - int (length xs) \<le> i then Inr (xs ! nat (int (length xs) + i))
      else Inl IndexError)"

text \<open>
  \<open>calculate_selling_prices(players_df, p0_array, player_id_to_idx)\<close>, lines 39 to 56: for
  each row the current price is \<open>int(round(float(row['cost'])))\<close>, the cost made a float
  and back an integer, and the purchase price is read from the list at \<open>idx - 1\<close>.
\<close>

fun calculate_selling_prices_loop ::
  "player list \<Rightarrow> int list \<Rightarrow> (int \<rightharpoonup> nat) \<Rightarrow> (int \<rightharpoonup> int) \<Rightarrow> error + (int \<rightharpoonup> int)" where
  "calculate_selling_prices_loop [] p0_array idx_of selling_prices = Inr selling_prices"
| "calculate_selling_prices_loop (row # rows) p0_array idx_of selling_prices =
     (let pid = player_id row
      in case float_of_int (cost row) of
           Inl e \<Rightarrow> Inl e
         | Inr current_price \<Rightarrow>
             (case idx_of pid of
                None \<Rightarrow> Inl KeyError
              | Some idx \<Rightarrow>
                  (case py_index p0_array (int idx - 1) of
                     Inl e \<Rightarrow> Inl e
                   | Inr purchase_price \<Rightarrow>
                       (case cp_selling_price current_price purchase_price of
                          Inl e \<Rightarrow> Inl e
                        | Inr sp \<Rightarrow>
                            calculate_selling_prices_loop rows p0_array idx_of
                              (selling_prices(pid \<mapsto> sp))))))"

definition calculate_selling_prices ::
  "player list \<Rightarrow> int list \<Rightarrow> (int \<rightharpoonup> nat) \<Rightarrow> error + (int \<rightharpoonup> int)" where
  "calculate_selling_prices players_df p0_array idx_of =
     calculate_selling_prices_loop players_df p0_array idx_of Map.empty"

text \<open>
  The selling price as the specification words it, in exact arithmetic:
  \<open>purchasePrice + ceil(0.5 * max(0, currentCost - purchasePrice))\<close> when the current cost
  is above the purchase price, the current cost otherwise.
\<close>

definition spec_selling_price :: "int \<Rightarrow> int \<Rightarrow> int" where
  "spec_selling_price purchasePrice currentCost =
     (if currentCost > purchasePrice
      then purchasePrice + \<lceil>0.5 * real_of_int (max 0 (currentCost - purchasePrice))\<rceil>
      else currentCost)"

section \<open>Transfer state: free transfers\<close>

text \<open>
  Line 208 of \<open>optimize_post_gw1_step1\<close> (MILP):
  \<open>remaining_free_transfers = max(0, f - total_transfers_made)\<close>.
\<close>

definition milp_remaining_free_transfers :: "int \<Rightarrow> int \<Rightarrow> int" where
  "milp_remaining_free_transfers f total_transfers_made = max 0 (f - total_transfers_made)"

text \<open>Lines 220 to 231 of \<open>parse_post_gw1_output\<close> (MiniZinc path).\<close>

definition cp_f_new :: "int \<Rightarrow> int \<Rightarrow> int" where
  "cp_f_new f total_transfers_made =
     (if total_transfers_made \<le> f then
        (let remaining_free = f - total_transfers_made
         in if remaining_free > 0 then min 2 (1 + remaining_free) else 1)
      else 1)"

text \<open>
  \<open>total_transfers_made = sum(t.values())\<close>: the dict \<open>t\<close> has one 0/1 entry per player id
  of the table, 1 when the player is bought.
\<close>

definition total_transfers_made :: "player list \<Rightarrow> (int \<Rightarrow> int) \<Rightarrow> int" where
  "total_transfers_made players_df t = sum_list (map t (remdups (map player_id players_df)))"

text \<open>
  The free-transfer carry-over as the specification words it: with \<open>made \<le> free\<close> and
  \<open>remaining = free - made\<close>, the new count is \<open>min(2, 1 + remaining)\<close> when
  \<open>remaining > 0\<close> and 1 otherwise; with \<open>made > free\<close> it is 1.
\<close>

definition spec_new_free :: "int \<Rightarrow> int \<Rightarrow> int" where
  "spec_new_free free made =
     (if made \<le> free then (if free - made > 0 then min 2 (1 + (free - made)) else 1) else 1)"

section \<open>Formation check\<close>

text \<open>
  The validator returns a pair \<open>(is_valid, error_message)\<close>. Here \<open>None\<close> is
  \<open>(True, "")\<close> and \<open>Some r\<close> is \<open>(False, message)\<close>, with one constructor of
  \<open>reason\<close> for each message of the source and the values the message prints.
\<close>

datatype reason =
    SquadSize nat  \<comment> \<open>Squad must have exactly 15 players, found n\<close>
  | SquadComposition nat string nat  \<comment> \<open>Squad must have count pos, found actual\<close>
  | ClubLimit "(string \<times> nat) set"  \<comment> \<open>Maximum 3 players per club. Violations: ...\<close>
  | StartersSize nat  \<comment> \<open>Starting XI must have exactly 11 players, found n\<close>
  | StartingGK nat  \<comment> \<open>Starting XI must have exactly 1 GK, found n\<close>
  | StartingDEF nat  \<comment> \<open>Starting XI must have 3-5 DEF, found n\<close>
  | StartingMID nat  \<comment> \<open>Starting XI must have 2-5 MID, found n\<close>
  | StartingFWD nat  \<comment> \<open>Starting XI must have 1-3 FWD, found n\<close>
  | BenchSize nat  \<comment> \<open>Bench must have exactly 4 players, found n\<close>
  | BenchPositions "int list"  \<comment> \<open>Bench positions must be [1,2,3,4], found keys\<close>
  | BenchPlayerNotFound int int  \<comment> \<open>Bench position pos player (ID: id) not found\<close>
  | BenchOneNotGK string  \<comment> \<open>Bench position 1 must be GK, found position\<close>
  | BenchOutfieldIsGK int  \<comment> \<open>Bench position pos must be outfield player, found GK\<close>
  | CaptainIsVice  \<comment> \<open>Captain and vice-captain must be different players\<close>
  | CaptainNotStarter int  \<comment> \<open>Captain (ID: id) must be in starting XI\<close>
  | ViceNotStarter int  \<comment> \<open>Vice-captain (ID: id) must be in starting XI\<close>
  | FormationGK nat  \<comment> \<open>Formation must have exactly 1 GK, found n\<close>
  | FormationDEF nat  \<comment> \<open>Formation must have 3-5 DEF, found n\<close>
  | FormationMID nat  \<comment> \<open>Formation must have 2-5 MID, found n\<close>
  | FormationFWD nat  \<comment> \<open>Formation must have 1-3 FWD, found n\<close>

text \<open>\<open>df['position'].value_counts().to_dict().get(pos, 0)\<close>: the rows with that position.\<close>

definition position_count :: "player list \<Rightarrow> string \<Rightarrow> nat" where
  "position_count df pos = length (filter (\<lambda>r. position r = pos) df)"

text \<open>\<open>validate_formation(players_df)\<close>, lines 125 to 150 of the validator.\<close>

definition validate_formation :: "player list \<Rightarrow> reason option" where
  "validate_formation players_df =
     (let gk = position_count players_df ''GK'';
          defn = position_count players_df ''DEF'';
          mid = position_count players_df ''MID'';
          fwd = position_count players_df ''FWD'';
          total = gk + defn + mid + fwd
      in if gk \<noteq> 1 then Some (FormationGK gk)
         else if defn < 3 \<or> defn > 5 then Some (FormationDEF defn)
         else if total \<ge> 4 \<and> (mid < 2 \<or> mid > 5) then Some (FormationMID mid)
         else if total \<ge> 5 \<and> (fwd < 1 \<or> fwd > 3) then Some (FormationFWD fwd)
         else None)"

section \<open>Team validation\<close>

text \<open>\<open>gw_df[gw_df['player_id'].isin(ids)]\<close>: the rows of the table whose id is listed.\<close>

definition isin :: "player list \<Rightarrow> int list \<Rightarrow> player list" where
  "isin gw_df ids = filter (\<lambda>r. player_id r \<in> set ids) gw_df"

text \<open>\<open>gw_df[gw_df['player_id'] == pid]\<close>.\<close>

definition rows_of :: "player list \<Rightarrow> int \<Rightarrow> player list" where
  "rows_of gw_df pid = filter (\<lambda>r. player_id r = pid) gw_df"

text \<open>The dict \<open>expected\<close> of line 42, in its iteration order.\<close>

definition expected :: "(string \<times> nat) list" where
  "expected = [(''GK'', 2), (''DEF'', 5), (''MID'', 5), (''FWD'', 3)]"

text \<open>The loop of lines 44 to 47 over \<open>expected.items()\<close>.\<close>

fun squad_composition :: "player list \<Rightarrow> (string \<times> nat) list \<Rightarrow> reason option" where
  "squad_composition squad_df [] = None"
| "squad_composition squad_df ((pos, cnt) # rest) =
     (let actual = position_count squad_df pos
      in if actual \<noteq> cnt then Some (SquadComposition cnt pos actual)
         else squad_composition squad_df rest)"

text \<open>
  Lines 50 and 51: the clubs with more than three squad players, each with its count.
  The order in which pandas lists them only shapes the message, so the reason holds
  them as a set.
\<close>

definition team_count :: "player list \<Rightarrow> string \<Rightarrow> nat" where
  "team_count squad_df club = length (filter (\<lambda>r. team r = club) squad_df)"

definition over_limit :: "player list \<Rightarrow> (string \<times> nat) list" where
  "over_limit squad_df =
     filter (\<lambda>(club, n). n > 3)
       (map (\<lambda>club. (club, team_count squad_df club)) (remdups (map team squad_df)))"

text \<open>
  The bench is a dict from bench position to player id: an association list here, whose
  keys are distinct for every dict. \<open>bench_ids[pos]\<close> raises KeyError on a missing key.
\<close>

type_synonym bench = "(int \<times> int) list"

text \<open>The loop of lines 96 to 102 over the bench positions 2, 3, 4.\<close>

fun validate_outfield_bench :: "player list \<Rightarrow> bench \<Rightarrow> int list \<Rightarrow> error + reason option" where
  "validate_outfield_bench gw_df bench_ids [] = Inr None"
| "validate_outfield_bench gw_df bench_ids (pos # rest) =
     (case map_of bench_ids pos of
        None \<Rightarrow> Inl KeyError
      | Some pid \<Rightarrow>
          (case rows_of gw_df pid of
             [] \<Rightarrow> Inr (Some (BenchPlayerNotFound pos pid))
           | row # _ \<Rightarrow>
               if position row = ''GK'' then Inr (Some (BenchOutfieldIsGK pos))
               else validate_outfield_bench gw_df bench_ids rest))"

text \<open>Lines 104 to 112: the captaincy checks and the final success.\<close>

definition validate_captaincy :: "int list \<Rightarrow> int \<Rightarrow> int \<Rightarrow> reason option" where
  "validate_captaincy starter_ids captain_id vice_id =
     (if captain_id = vice_id then Some CaptainIsVice
      else if captain_id \<notin> set starter_ids then Some (CaptainNotStarter captain_id)
      else if vice_id \<notin> set starter_ids then Some (ViceNotStarter vice_id)
      else None)"

text \<open>Lines 80 to 112: the bench checks, then the captaincy checks.\<close>

definition validate_bench :: "player list \<Rightarrow> int list \<Rightarrow> bench \<Rightarrow> int \<Rightarrow> int \<Rightarrow> error + reason option" where
  "validate_bench gw_df starter_ids bench_ids captain_id vice_id =
     (if length bench_ids \<noteq> 4 then Inr (Some (BenchSize (length bench_ids)))
      else if sort (map fst bench_ids) \<noteq> [1, 2, 3, 4]
        then Inr (Some (BenchPositions (sort (map fst bench_ids))))
      else
        (case map_of bench_ids 1 of
           None \<Rightarrow> Inl KeyError
         | Some pos1_id \<Rightarrow>
             (case rows_of gw_df pos1_id of
                [] \<Rightarrow> Inr (Some (BenchPlayerNotFound 1 pos1_id))
              | pos1_player # _ \<Rightarrow>
                  if position pos1_player \<noteq> ''GK''
                  then Inr (Some (BenchOneNotGK (position pos1_player)))
                  else
                    (case validate_outfield_bench gw_df bench_ids [2, 3, 4] of
                       Inl e \<Rightarrow> Inl e
                     | Inr (Some r) \<Rightarrow> Inr (Some r)
                     | Inr None \<Rightarrow> Inr (validate_captaincy starter_ids captain_id vice_id)))))"

text \<open>Lines 56 to 78: the size and the formation of the starting eleven.\<close>

definition validate_starters :: "player list \<Rightarrow> int list \<Rightarrow> reason option" where
  "validate_starters gw_df starter_ids =
     (if length starter_ids \<noteq> 11 then Some (StartersSize (length starter_ids))
      else
        (let starters_df = isin gw_df starter_ids;
             gk = position_count starters_df ''GK'';
             defn = position_count starters_df ''DEF'';
             mid = position_count starters_df ''MID'';
             fwd = position_count starters_df ''FWD''
         in if gk \<noteq> 1 then Some (StartingGK gk)
            else if defn < 3 \<or> defn > 5 then Some (StartingDEF defn)
            else if mid < 2 \<or> mid > 5 then Some (StartingMID mid)
            else if fwd < 1 \<or> fwd > 3 then Some (StartingFWD fwd)
            else None))"

text \<open>\<open>validate_team\<close>, lines 33 to 112 of the validator.\<close>

definition validate_team ::
  "player list \<Rightarrow> int list \<Rightarrow> int list \<Rightarrow> bench \<Rightarrow> int \<Rightarrow> int \<Rightarrow> error + reason option" where
  "validate_team gw_df squad_ids starter_ids bench_ids captain_id vice_id =
     (if length squad_ids \<noteq> 15 then Inr (Some (SquadSize (length squad_ids)))
      else
        (let squad_df = isin gw_df squad_ids
         in case squad_composition squad_df expected of
              Some r \<Rightarrow> Inr (Some r)
            | None \<Rightarrow>
                if length (over_limit squad_df) > 0
                then Inr (Some (ClubLimit (set (over_limit squad_df))))
                else
                  (case validate_starters gw_df starter_ids of
                     Some r \<Rightarrow> Inr (Some r)
                   | None \<Rightarrow> validate_bench gw_df starter_ids bench_ids captain_id vice_id)))"

section \<open>Gameweek scorer\<close>

text \<open>One entry of the \<open>substitutions\<close> list of the breakdown.\<close>

record substitution =
  sub_player_id :: int
  sub_name :: string
  sub_position :: string
  sub_bench_pos :: int
  sub_points :: int

text \<open>The value of \<open>captain_used\<close>: \<open>'captain'\<close>, \<open>'vice'\<close>, or Python's \<open>None\<close>.\<close>

datatype armband = Captain | Vice

text \<open>
  The breakdown dict. The early return of line 44 has four keys, the return of line 119
  has seven, so there is one constructor for each.
\<close>

datatype details =
    NoPlayDetails
      (substitutions: "substitution list") (captain_played: bool) (vice_played: bool)
      (captain_points: int)
  | Details
      (substitutions: "substitution list") (captain_played: bool) (vice_played: bool)
      (captain_used: "armband option") (captain_bonus: int) (base_points: int)
      (num_active_players: nat)

text \<open>
  The loop of lines 55 to 85 over the bench positions still to look at. \<open>break\<close> returns
  what has been built, \<open>continue\<close> goes on with the rest. \<open>bench_ids[bench_pos]\<close> raises
  KeyError on a missing key and \<open>iloc[0]\<close> raises IndexError when the table has no row
  for the player.
\<close>

fun bench_loop ::
  "player list \<Rightarrow> bench \<Rightarrow> int list \<Rightarrow> player list \<Rightarrow> substitution list
     \<Rightarrow> error + (player list \<times> substitution list)" where
  "bench_loop gw_df bench_ids [] active_players subs = Inr (active_players, subs)"
| "bench_loop gw_df bench_ids (bench_pos # rest) active_players subs =
     (if length active_players \<ge> 11 then Inr (active_players, subs)
      else
        (case map_of bench_ids bench_pos of
           None \<Rightarrow> Inl KeyError
         | Some pid \<Rightarrow>
             (case rows_of gw_df pid of
                [] \<Rightarrow> Inl IndexError
              | bench_player # _ \<Rightarrow>
                  if minutes bench_player = 0
                  then bench_loop gw_df bench_ids rest active_players subs
                  else
                    (let test_lineup = active_players @ [bench_player]
                     in if validate_formation test_lineup = None
                        then bench_loop gw_df bench_ids rest test_lineup
                               (subs @ [\<lparr>sub_player_id = player_id bench_player,
                                          sub_name = name bench_player,
                                          sub_position = position bench_player,
                                          sub_bench_pos = bench_pos,
                                          sub_points = points bench_player\<rparr>])
                        else bench_loop gw_df bench_ids rest active_players subs))))"

text \<open>
  Lines 98 and 102: \<open>active_players[active_players['player_id'] == pid]['points'].iloc[0]\<close>,
  read only when the id is among the active players.
\<close>

definition first_points :: "player list \<Rightarrow> int \<Rightarrow> error + int" where
  "first_points active_players pid =
     (case rows_of active_players pid of [] \<Rightarrow> Inl IndexError | r # _ \<Rightarrow> Inr (points r))"

text \<open>Lines 87 to 119: base points, armband bonus, total and breakdown.\<close>

definition apply_captaincy ::
  "player list \<Rightarrow> substitution list \<Rightarrow> int \<Rightarrow> int \<Rightarrow> error + (int \<times> player list \<times> details)" where
  "apply_captaincy active_players subs captain_id vice_id =
     (let base = sum_list (map points active_players);
          cap_played = (captain_id \<in> set (map player_id active_players));
          vc_played = (vice_id \<in> set (map player_id active_players));
          finish = (\<lambda>bonus used.
            Inr (base + bonus, active_players,
                 Details subs cap_played vc_played used bonus base (length active_players)))
      in if cap_played then
           (case first_points active_players captain_id of
              Inl e \<Rightarrow> Inl e
            | Inr cap_points \<Rightarrow> finish cap_points (Some Captain))
         else if vc_played then
           (case first_points active_players vice_id of
              Inl e \<Rightarrow> Inl e
            | Inr vice_points \<Rightarrow> finish vice_points (Some Vice))
         else finish 0 None)"

text \<open>\<open>calculate_gameweek_points\<close>, lines 37 to 119 of the point calculator.\<close>

definition calculate_gameweek_points ::
  "player list \<Rightarrow> int list \<Rightarrow> bench \<Rightarrow> int \<Rightarrow> int \<Rightarrow> error + (int \<times> player list \<times> details)" where
  "calculate_gameweek_points gw_df starter_ids bench_ids captain_id vice_id =
     (let starters_df = isin gw_df starter_ids;
          active_players = filter (\<lambda>r. minutes r > 0) starters_df
      in if length active_players = 0
         then Inr (0, active_players, NoPlayDetails [] False False 0)
         else
           (case bench_loop gw_df bench_ids [1, 2, 3, 4] active_players [] of
              Inl e \<Rightarrow> Inl e
            | Inr (final_active, subs) \<Rightarrow> apply_captaincy final_active subs captain_id vice_id))"

section \<open>Role assigner: bench order\<close>

text \<open>
  \<open>sorted(xs, key=k, reverse=True)\<close>: Python reverses the list, sorts it stably in
  ascending order of the key and reverses the result, which keeps equal keys in their
  input order.
\<close>

definition sorted_reverse :: "('a \<Rightarrow> 'k::linorder) \<Rightarrow> 'a list \<Rightarrow> 'a list" where
  "sorted_reverse k xs = rev (sort_key k (rev xs))"

text \<open>
  \<open>assign_bench_positions(players, bench_ids)\<close>, lines 169 to 187 of the optimiser's
  utilities. \<open>players\<close> is a dict from player id to the player's attributes, and
  \<open>players[pid]\<close> raises KeyError for an id it does not hold; the first list
  comprehension visits every bench id, so it raises exactly when one is missing.
\<close>

definition is_gk :: "(int \<rightharpoonup> player) \<Rightarrow> int \<Rightarrow> bool" where
  "is_gk players pid = (case players pid of None \<Rightarrow> False | Some r \<Rightarrow> position r = ''GK'')"

definition ep_of :: "(int \<rightharpoonup> player) \<Rightarrow> int \<Rightarrow> real" where
  "ep_of players pid = (case players pid of None \<Rightarrow> 0 | Some r \<Rightarrow> expected_points r)"

definition assign_bench_positions :: "(int \<rightharpoonup> player) \<Rightarrow> int list \<Rightarrow> error + int list" where
  "assign_bench_positions players bench_ids =
     (if \<exists>pid \<in> set bench_ids. players pid = None then Inl KeyError
      else
        (let bench_gks = filter (\<lambda>pid. is_gk players pid) bench_ids
         in case bench_gks of
              [gk_id] \<Rightarrow>
                (let outfield_ids = filter (\<lambda>pid. \<not> is_gk players pid) bench_ids
                 in if length outfield_ids \<noteq> 3
                    then Inl (BenchOutfieldCount (length outfield_ids))
                    else
                      (let outfield_ids_sorted = sorted_reverse (ep_of players) outfield_ids;
                           bench_order = [gk_id] @ outfield_ids_sorted
                       in Inr bench_order))
            | _ \<Rightarrow> Inl (BenchGKCount (length bench_gks))))"

section \<open>Transfer state: the MILP step around its solver\<close>

text \<open>The state carried to the next gameweek: purchase prices, free transfers, bank.\<close>

record next_state =
  p0_next :: "int \<rightharpoonup> int"
  f_next :: int
  B_bank_next :: int

text \<open>
  The solver is not modelled. What it hands back is a parameter: the values of the
  decision variables after \<open>int(round(varValue))\<close>, one per player id for \<open>x\<close> (starter),
  \<open>y\<close> (squad), \<open>c\<close> (captain), \<open>t\<close> (bought), \<open>s\<close> (sold), and the number \<open>e\<close> of extra
  transfers.
\<close>

record milp_solution =
  sol_x :: "int \<Rightarrow> int"
  sol_y :: "int \<Rightarrow> int"
  sol_c :: "int \<Rightarrow> int"
  sol_t :: "int \<Rightarrow> int"
  sol_s :: "int \<Rightarrow> int"
  sol_e :: int

text \<open>\<open>pulp.lpSum([v[pid] for pid in pids])\<close> and the player ids of one position.\<close>

definition lp_sum :: "(int \<Rightarrow> int) \<Rightarrow> int list \<Rightarrow> int" where
  "lp_sum v pids = sum_list (map v pids)"

definition ids_at :: "player list \<Rightarrow> string \<Rightarrow> int list" where
  "ids_at players_df pos = map player_id (filter (\<lambda>r. position r = pos) players_df)"

text \<open>\<open>d[pid]\<close> for a key the dict holds.\<close>

definition dict_value :: "(int \<rightharpoonup> int) \<Rightarrow> int \<Rightarrow> int" where
  "dict_value d pid = (case d pid of None \<Rightarrow> 0 | Some v \<Rightarrow> v)"

text \<open>\<open>sum(selling_prices[pid] * s_star[pid] for pid in player_ids)\<close>.\<close>

fun selling_proceeds :: "(int \<rightharpoonup> int) \<Rightarrow> (int \<Rightarrow> int) \<Rightarrow> int list \<Rightarrow> error + int" where
  "selling_proceeds selling_prices s [] = Inr 0"
| "selling_proceeds selling_prices s (pid # pids) =
     (case selling_prices pid of
        None \<Rightarrow> Inl KeyError
      | Some sp \<Rightarrow>
          (case selling_proceeds selling_prices s pids of
             Inl e \<Rightarrow> Inl e
           | Inr rest \<Rightarrow> Inr (sp * s pid + rest)))"

text \<open>\<open>sum(players[pid]['cost'] * t_star[pid] for pid in player_ids)\<close>.\<close>

definition purchase_costs :: "player list \<Rightarrow> (int \<Rightarrow> int) \<Rightarrow> int" where
  "purchase_costs players_df t = sum_list (map (\<lambda>r. cost r * t (player_id r)) players_df)"

text \<open>
  The constraints of the problem, lines 72 to 174, as a condition on the values handed
  back: the variables are binary and \<open>e\<close> is an integer from 0 to 15; eleven starters
  with one GK, 3 to 5 DEF, 2 to 5 MID and 1 to 3 FWD; one captain, who starts; no
  unavailable starter; a squad of fifteen with 2 GK, 5 DEF, 5 MID and 3 FWD; the
  purchases paid by the bank and the selling proceeds; at most three squad players of a
  club; starters in the squad; the squad is the old squad with the bought players added
  and the sold ones removed; nobody both bought and sold, only players outside the old
  squad bought, only players of the old squad sold; \<open>e\<close> covers the purchases beyond the
  free transfers; at most fifteen purchases.
\<close>

definition milp_constraints ::
  "player list \<Rightarrow> (int \<rightharpoonup> int) \<Rightarrow> int \<Rightarrow> int \<Rightarrow> (int \<rightharpoonup> int) \<Rightarrow> milp_solution \<Rightarrow> bool" where
  "milp_constraints players_df y0 f B_bank selling_prices sol =
     (let player_ids = map player_id players_df;
          x = sol_x sol; y = sol_y sol; c = sol_c sol; t = sol_t sol; s = sol_s sol; e = sol_e sol
      in list_all (\<lambda>pid. x pid \<in> {0, 1} \<and> y pid \<in> {0, 1} \<and> c pid \<in> {0, 1}
                      \<and> t pid \<in> {0, 1} \<and> s pid \<in> {0, 1}) player_ids
         \<and> 0 \<le> e \<and> e \<le> 15
         \<and> lp_sum x player_ids = 11
         \<and> lp_sum x (ids_at players_df ''GK'') = 1
         \<and> lp_sum x (ids_at players_df ''DEF'') \<ge> 3
         \<and> lp_sum x (ids_at players_df ''DEF'') \<le> 5
         \<and> lp_sum x (ids_at players_df ''MID'') \<ge> 2
         \<and> lp_sum x (ids_at players_df ''MID'') \<le> 5
         \<and> lp_sum x (ids_at players_df ''FWD'') \<ge> 1
         \<and> lp_sum x (ids_at players_df ''FWD'') \<le> 3
         \<and> lp_sum c player_ids = 1
         \<and> list_all (\<lambda>pid. c pid \<le> x pid) player_ids
         \<and> list_all (\<lambda>r. x (player_id r) = 0) (filter (\<lambda>r. unavailable r = 1) players_df)
         \<and> lp_sum y player_ids = 15
         \<and> lp_sum y (ids_at players_df ''GK'') = 2
         \<and> lp_sum y (ids_at players_df ''DEF'') = 5
         \<and> lp_sum y (ids_at players_df ''MID'') = 5
         \<and> lp_sum y (ids_at players_df ''FWD'') = 3
         \<and> (case selling_proceeds selling_prices s player_ids of
               Inl err \<Rightarrow> False
             | Inr proceeds \<Rightarrow> purchase_costs players_df t \<le> B_bank + proceeds)
         \<and> list_all (\<lambda>club. lp_sum y (map player_id (filter (\<lambda>r. team r = club) players_df)) \<le> 3)
              (remdups (map team players_df))
         \<and> list_all (\<lambda>pid. x pid \<le> y pid) player_ids
         \<and> list_all (\<lambda>pid. y pid = dict_value y0 pid + t pid - s pid) player_ids
         \<and> list_all (\<lambda>pid. t pid + s pid \<le> 1) player_ids
         \<and> list_all (\<lambda>pid. t pid \<le> 1 - dict_value y0 pid) player_ids
         \<and> list_all (\<lambda>pid. s pid \<le> dict_value y0 pid) player_ids
         \<and> e \<ge> lp_sum t player_ids - f
         \<and> lp_sum t player_ids \<le> 15)"

text \<open>
  The objective of lines 92 to 95: the expected points of the starters, the captain's
  counted twice, less 4 points for each extra transfer.
\<close>

definition milp_objective :: "player list \<Rightarrow> milp_solution \<Rightarrow> real" where
  "milp_objective players_df sol =
     sum_list (map (\<lambda>r. expected_points r
                          * real_of_int (sol_x sol (player_id r) + sol_c sol (player_id r)))
                 players_df)
     - 4 * real_of_int (sol_e sol)"

text \<open>
  Lines 197 to 201 of \<open>optimize_post_gw1_step1\<close>: sold players get purchase price 0,
  bought players their current cost, all others keep theirs.
\<close>

fun milp_update_p0 ::
  "player list \<Rightarrow> (int \<Rightarrow> int) \<Rightarrow> (int \<Rightarrow> int) \<Rightarrow> (int \<rightharpoonup> int) \<Rightarrow> (int \<rightharpoonup> int)" where
  "milp_update_p0 [] t s p0 = p0"
| "milp_update_p0 (r # rs) t s p0 =
     milp_update_p0 rs t s
       (if s (player_id r) \<noteq> 0 then p0(player_id r \<mapsto> 0)
        else if t (player_id r) \<noteq> 0 then p0(player_id r \<mapsto> cost r)
        else p0)"

text \<open>
  \<open>optimize_post_gw1_step1\<close> (MILP), lines 47 to 227. Before the solver runs, the table
  is validated and the selling prices are computed (lines 47 to 67), and building the
  constraints reads \<open>y0[pid]\<close> for every player (line 156). The outcome of the solver
  is the parameter \<open>outcome\<close>: \<open>None\<close> for a status other than Optimal, on which line 181
  raises ValueError, and \<open>Some\<close> of the values otherwise. Values that break a constraint
  are no outcome of a solver that reports Optimal, so the model answers them with the
  same error and runs the state update of lines 192 to 225 only on values that satisfy
  the constraints. Which of those values the solver picks, one with the greatest
  objective, is left to the caller: the state update does not read the objective.
\<close>

definition optimize_post_gw1_step1 ::
  "player list \<Rightarrow> (int \<rightharpoonup> int) \<Rightarrow> (int \<rightharpoonup> int) \<Rightarrow> int \<Rightarrow> int \<Rightarrow> milp_solution option
     \<Rightarrow> error + next_state" where
  "optimize_post_gw1_step1 players_df y0 p0 f B_bank outcome =
     (case milp_selling_prices players_df p0 of
        Inl e \<Rightarrow> Inl e
      | Inr selling_prices \<Rightarrow>
          if list_ex (\<lambda>pid. y0 pid = None) (map player_id players_df) then Inl KeyError
          else
            (case outcome of
               None \<Rightarrow> Inl OptimizationFailed
             | Some sol \<Rightarrow>
                 if \<not> milp_constraints players_df y0 f B_bank selling_prices sol
                 then Inl OptimizationFailed
                 else
                   (let made = total_transfers_made players_df (sol_t sol);
                        p0' = milp_update_p0 players_df (sol_t sol) (sol_s sol) p0
                    in case selling_proceeds selling_prices (sol_s sol) (map player_id players_df) of
                         Inl e \<Rightarrow> Inl e
                       | Inr total_selling_proceeds \<Rightarrow>
                           (let total_purchase_costs = purchase_costs players_df (sol_t sol);
                                remaining_free_transfers = milp_remaining_free_transfers f made
                            in Inr \<lparr>p0_next = p0',
                                    f_next = remaining_free_transfers,
                                    B_bank_next =
                                      B_bank + total_selling_proceeds - total_purchase_costs\<rparr>))))"

section \<open>Transfer state: the MiniZinc step after its solver\<close>

text \<open>
  \<open>[pid for pid, val in d.items() if val == 1]\<close> for a dict keyed by the table's player
  ids in table order.
\<close>

definition ones :: "(int \<Rightarrow> int) \<Rightarrow> int list \<Rightarrow> int list" where
  "ones d pids = filter (\<lambda>pid. d pid = 1) pids"

text \<open>
  \<open>max(xs, key=k)\<close>: the first element with the greatest key; on an empty sequence
  Python raises ValueError, here \<open>None\<close>.
\<close>

fun py_max :: "('a \<Rightarrow> real) \<Rightarrow> 'a list \<Rightarrow> 'a option" where
  "py_max k [] = None"
| "py_max k (x # xs) = Some (fold (\<lambda>y best. if k y > k best then y else best) xs x)"

text \<open>
  \<open>process_post_gw1_solution(players_df, x_star, y_star, c_star)\<close>, lines 107 to 146 of
  the optimiser's utilities: it returns indicator dicts of the vice-captain and of the
  four bench slots, here the vice-captain's id and the bench order they are built from.
\<close>

definition process_post_gw1_solution ::
  "player list \<Rightarrow> (int \<Rightarrow> int) \<Rightarrow> (int \<Rightarrow> int) \<Rightarrow> (int \<Rightarrow> int) \<Rightarrow> error + (int \<times> int list)" where
  "process_post_gw1_solution players_df x_star y_star c_star =
     (if \<not> distinct (map player_id players_df) then Inl DuplicatePlayerIds
      else
        (let players = map_of (map (\<lambda>r. (player_id r, r)) players_df);
             player_ids = map player_id players_df;
             squad_ids = ones y_star player_ids;
             starter_ids = ones x_star player_ids
         in case ones c_star player_ids of
              [] \<Rightarrow> Inl IndexError
            | captain_id # others \<Rightarrow>
                (let bench_ids = filter (\<lambda>pid. pid \<notin> set starter_ids) squad_ids
                 in case py_max (ep_of players)
                           (filter (\<lambda>pid. x_star pid = 1 \<and> c_star pid = 0) player_ids) of
                      None \<Rightarrow> Inl EmptySequence
                    | Some vice_captain_id \<Rightarrow>
                        (case assign_bench_positions players bench_ids of
                           Inl e \<Rightarrow> Inl e
                         | Inr bench_order \<Rightarrow> Inr (vice_captain_id, bench_order)))))"

text \<open>
  Lines 189 to 199 of \<open>parse_post_gw1_output\<close>: the new purchase-price dict. The old
  price list is read only for a player neither sold nor bought.
\<close>

fun cp_p0_new ::
  "player list \<Rightarrow> int list \<Rightarrow> (int \<rightharpoonup> nat) \<Rightarrow> (int \<Rightarrow> int) \<Rightarrow> (int \<Rightarrow> int) \<Rightarrow> (int \<rightharpoonup> int)
     \<Rightarrow> error + (int \<rightharpoonup> int)" where
  "cp_p0_new [] p0 idx_of t s p0_new = Inr p0_new"
| "cp_p0_new (r # rs) p0 idx_of t s p0_new =
     (let pid = player_id r
      in case idx_of pid of
           None \<Rightarrow> Inl KeyError
         | Some idx \<Rightarrow>
             if s pid = 1 then cp_p0_new rs p0 idx_of t s (p0_new(pid \<mapsto> 0))
             else if t pid = 1 then cp_p0_new rs p0 idx_of t s (p0_new(pid \<mapsto> cost r))
             else (case py_index p0 (int idx - 1) of
                     Inl e \<Rightarrow> Inl e
                   | Inr old \<Rightarrow> cp_p0_new rs p0 idx_of t s (p0_new(pid \<mapsto> old))))"

text \<open>
  What \<open>parse_post_gw1_output\<close> reads off the solver's result in lines 164 to 183: the
  0/1 dicts \<open>x\<close>, \<open>c\<close>, \<open>y\<close>, \<open>t\<close> and \<open>s\<close>, keyed by the table's player ids.
\<close>

record cp_result =
  res_x :: "int \<Rightarrow> int"
  res_c :: "int \<Rightarrow> int"
  res_y :: "int \<Rightarrow> int"
  res_t :: "int \<Rightarrow> int"
  res_s :: "int \<Rightarrow> int"

text \<open>
  \<open>parse_post_gw1_output\<close> (MiniZinc path), lines 160 to 256. The result is \<open>None\<close> when
  it has no solution, on which line 161 raises ValueError. The function returns the
  updated state together with the post-hoc assignments of line 234.
\<close>

definition parse_post_gw1_output ::
  "cp_result option \<Rightarrow> player list \<Rightarrow> int list \<Rightarrow> int \<Rightarrow> int
     \<Rightarrow> error + (next_state \<times> int \<times> int list)" where
  "parse_post_gw1_output result players_df p0 f B_bank =
     (case result of
        None \<Rightarrow> Inl NoSolution
      | Some res \<Rightarrow>
          (let idx_of = player_id_to_idx players_df; t = res_t res; s = res_s res
           in case cp_p0_new players_df p0 idx_of t s Map.empty of
                Inl e \<Rightarrow> Inl e
              | Inr p0_new \<Rightarrow>
                  (case calculate_selling_prices players_df p0 idx_of of
                     Inl e \<Rightarrow> Inl e
                   | Inr selling_prices \<Rightarrow>
                       (case selling_proceeds selling_prices s (map player_id players_df) of
                          Inl e \<Rightarrow> Inl e
                        | Inr total_selling_proceeds \<Rightarrow>
                            (let total_purchase_costs = purchase_costs players_df t;
                                 B_bank_new = B_bank + total_selling_proceeds - total_purchase_costs;
                                 made = total_transfers_made players_df t;
                                 f_new = cp_f_new f made
                             in case process_post_gw1_solution players_df (res_x res) (res_y res)
                                       (res_c res) of
                                  Inl e \<Rightarrow> Inl e
                                | Inr post_hoc \<Rightarrow>
                                    Inr (\<lparr>p0_next = p0_new, f_next = f_new,
                                          B_bank_next = B_bank_new\<rparr>, post_hoc))))))"

section \<open>The bench pass, as the specification describes it\<close>

text \<open>
  The player on bench slot \<open>k\<close>: the first row of the table for the id the bench dict
  holds at \<open>k\<close>, if there is one.
\<close>

definition bench_player :: "player list \<Rightarrow> bench \<Rightarrow> int \<Rightarrow> player option" where
  "bench_player gw_df bench_ids k =
     (case map_of bench_ids k of
        None \<Rightarrow> None
      | Some pid \<Rightarrow> (case rows_of gw_df pid of [] \<Rightarrow> None | r # _ \<Rightarrow> Some r))"

text \<open>The rows, and the substitution records, of a list of bench slots, in that order.\<close>

definition slot_rows :: "player list \<Rightarrow> bench \<Rightarrow> int list \<Rightarrow> player list" where
  "slot_rows gw_df bench_ids ks =
     concat (map (\<lambda>k. case bench_player gw_df bench_ids k of None \<Rightarrow> [] | Some p \<Rightarrow> [p]) ks)"

definition slot_subs :: "player list \<Rightarrow> bench \<Rightarrow> int list \<Rightarrow> substitution list" where
  "slot_subs gw_df bench_ids ks =
     concat (map (\<lambda>k. case bench_player gw_df bench_ids k of
                         None \<Rightarrow> []
                       | Some p \<Rightarrow> [\<lparr>sub_player_id = player_id p, sub_name = name p,
                                      sub_position = position p, sub_bench_pos = k,
                                      sub_points = points p\<rparr>]) ks)"

text \<open>
  The rule for one slot, given the slots \<open>cs\<close> that were committed: with the active set
  as it stands after the commits of the earlier slots only, slot \<open>k\<close> is committed when
  that set has fewer than 11 players, the slot's player has minutes other than 0, and
  the set with the player added passes the formation check.
\<close>

definition slot_commits :: "player list \<Rightarrow> bench \<Rightarrow> player list \<Rightarrow> int list \<Rightarrow> int \<Rightarrow> bool" where
  "slot_commits gw_df bench_ids active cs k =
     (case bench_player gw_df bench_ids k of
        None \<Rightarrow> False
      | Some p \<Rightarrow>
          (let before = active @ slot_rows gw_df bench_ids (filter (\<lambda>j. j < k) cs)
           in length before < 11 \<and> minutes p \<noteq> 0 \<and> validate_formation (before @ [p]) = None))"

section \<open>Team validation, as the specification lists its checks\<close>

text \<open>
  The eleven checks of the specification in its order, each as the condition that must
  hold: squad size 15; squad position quota (2,5,5,3); at most 3 players of a club;
  11 starters; starter formation with the full bounds; bench slot keys exactly
  1, 2, 3, 4; slot 1 resolves to a GK; slots 2 to 4 resolve to non-GK players;
  captain and vice differ; captain among the starters; vice among the starters.
\<close>

definition spec_checks ::
  "player list \<Rightarrow> int list \<Rightarrow> int list \<Rightarrow> bench \<Rightarrow> int \<Rightarrow> int \<Rightarrow> bool list" where
  "spec_checks gw_df squad_ids starter_ids bench_ids captain_id vice_id =
     (let squad = isin gw_df squad_ids; starters = isin gw_df starter_ids
      in [length squad_ids = 15,
          map (position_count squad) [''GK'', ''DEF'', ''MID'', ''FWD''] = [2, 5, 5, 3],
          list_all (\<lambda>club. team_count squad club \<le> 3) (map team squad),
          length starter_ids = 11,
          position_count starters ''GK'' = 1
            \<and> position_count starters ''DEF'' \<in> {3..5}
            \<and> position_count starters ''MID'' \<in> {2..5}
            \<and> position_count starters ''FWD'' \<in> {1..3},
          distinct (map fst bench_ids) \<and> set (map fst bench_ids) = {1, 2, 3, 4},
          (\<exists>p. bench_player gw_df bench_ids 1 = Some p \<and> position p = ''GK''),
          list_all (\<lambda>k. \<exists>p. bench_player gw_df bench_ids k = Some p \<and> position p \<noteq> ''GK'')
            [2, 3, 4],
          captain_id \<noteq> vice_id,
          captain_id \<in> set starter_ids,
          vice_id \<in> set starter_ids])"

text \<open>The number of the first check in a list that does not hold, counted from \<open>n\<close>.\<close>

fun first_failure_from :: "nat \<Rightarrow> bool list \<Rightarrow> nat option" where
  "first_failure_from n [] = None"
| "first_failure_from n (b # bs) = (if b then first_failure_from (n + 1) bs else Some n)"

definition first_failure :: "bool list \<Rightarrow> nat option" where
  "first_failure bs = first_failure_from 1 bs"

text \<open>
  The check of the specification that a reason of the validator belongs to. The
  reasons of the formation check are not reasons of team validation.
\<close>

fun check_of :: "reason \<Rightarrow> nat" where
  "check_of (SquadSize n) = 1"
| "check_of (SquadComposition cnt pos actual) = 2"
| "check_of (ClubLimit violations) = 3"
| "check_of (StartersSize n) = 4"
| "check_of (StartingGK n) = 5"
| "check_of (StartingDEF n) = 5"
| "check_of (StartingMID n) = 5"
| "check_of (StartingFWD n) = 5"
| "check_of (BenchSize n) = 6"
| "check_of (BenchPositions ks) = 6"
| "check_of (BenchPlayerNotFound pos pid) = (if pos = 1 then 7 else 8)"
| "check_of (BenchOneNotGK pos) = 7"
| "check_of (BenchOutfieldIsGK pos) = 8"
| "check_of CaptainIsVice = 9"
| "check_of (CaptainNotStarter pid) = 10"
| "check_of (ViceNotStarter pid) = 11"
| "check_of (FormationGK n) = 0"
| "check_of (FormationDEF n) = 0"
| "check_of (FormationMID n) = 0"
| "check_of (FormationFWD n) = 0"

section \<open>Example inputs\<close>

text \<open>A table row with the given id, position, club, cost, points and minutes.\<close>

definition ex_row :: "int \<Rightarrow> string \<Rightarrow> string \<Rightarrow> int \<Rightarrow> int \<Rightarrow> int \<Rightarrow> player" where
  "ex_row pid pos club c pts mins =
     \<lparr>player_id = pid, name = ''p'', position = pos, team = club, cost = c, points = pts,
      minutes = mins, expected_points = 0, unavailable = 0\<rparr>"

text \<open>Two owned players, both bought at 50: one now costs 70, the other 45.\<close>

definition ex_prices :: "player list" where
  "ex_prices = [ex_row 1 ''MID'' ''A'' 70 0 0, ex_row 2 ''FWD'' ''B'' 45 0 0]"

text \<open>The partial line-up GK, DEF, DEF, DEF and a lone goalkeeper.\<close>

definition ex_gk_three_def :: "player list" where
  "ex_gk_three_def =
     [ex_row 1 ''GK'' ''A'' 50 2 90, ex_row 2 ''DEF'' ''A'' 45 1 90,
      ex_row 3 ''DEF'' ''B'' 45 6 90, ex_row 4 ''DEF'' ''C'' 40 0 90]"

definition ex_lone_gk :: "player list" where
  "ex_lone_gk = [ex_row 1 ''GK'' ''A'' 50 2 90]"

text \<open>Two starters who did not play.\<close>

definition ex_idle :: "player list" where
  "ex_idle = [ex_row 1 ''GK'' ''A'' 50 0 0, ex_row 2 ''DEF'' ''B'' 45 0 0]"

text \<open>
  A gameweek table of fifteen players, one row per id, with a squad of 2 GK, 5 DEF,
  5 MID and 3 FWD, at most three players of a club, a 4-4-2 starting eleven and a
  bench of a goalkeeper and three outfield players. Starter 8 and bench player 7 did
  not play.
\<close>

definition ex_gw :: "player list" where
  "ex_gw =
     [ex_row 1 ''GK'' ''A'' 50 2 90, ex_row 2 ''GK'' ''B'' 40 3 90,
      ex_row 3 ''DEF'' ''C'' 55 6 90, ex_row 4 ''DEF'' ''D'' 50 1 90,
      ex_row 5 ''DEF'' ''E'' 45 2 90, ex_row 6 ''DEF'' ''A'' 45 2 90,
      ex_row 7 ''DEF'' ''B'' 40 0 0, ex_row 8 ''MID'' ''C'' 125 0 0,
      ex_row 9 ''MID'' ''D'' 100 5 90, ex_row 10 ''MID'' ''E'' 80 3 90,
      ex_row 11 ''MID'' ''A'' 65 2 90, ex_row 12 ''MID'' ''B'' 50 3 90,
      ex_row 13 ''FWD'' ''C'' 110 8 90, ex_row 14 ''FWD'' ''D'' 75 2 90,
      ex_row 15 ''FWD'' ''E'' 45 1 90]"

definition ex_squad :: "int list" where
  "ex_squad = [1, 2, 3, 4, 5, 6, 7, 8, 9, 10, 11, 12, 13, 14, 15]"

definition ex_starters :: "int list" where
  "ex_starters = [1, 3, 4, 5, 6, 8, 9, 10, 11, 13, 14]"

definition ex_bench :: bench where
  "ex_bench = [(1, 2), (2, 7), (3, 12), (4, 15)]"

text \<open>The active set and the substitution that the scorer ends with on this table.\<close>

definition ex_final_active :: "player list" where
  "ex_final_active =
     [ex_row 1 ''GK'' ''A'' 50 2 90, ex_row 3 ''DEF'' ''C'' 55 6 90,
      ex_row 4 ''DEF'' ''D'' 50 1 90, ex_row 5 ''DEF'' ''E'' 45 2 90,
      ex_row 6 ''DEF'' ''A'' 45 2 90, ex_row 9 ''MID'' ''D'' 100 5 90,
      ex_row 10 ''MID'' ''E'' 80 3 90, ex_row 11 ''MID'' ''A'' 65 2 90,
      ex_row 13 ''FWD'' ''C'' 110 8 90, ex_row 14 ''FWD'' ''D'' 75 2 90,
      ex_row 12 ''MID'' ''B'' 50 3 90]"

definition ex_subs :: "substitution list" where
  "ex_subs = [\<lparr>sub_player_id = 12, sub_name = ''p'', sub_position = ''MID'',
               sub_bench_pos = 3, sub_points = 3\<rparr>]"

definition ex_playing_starters :: "player list" where
  "ex_playing_starters =
     [ex_row 1 ''GK'' ''A'' 50 2 90, ex_row 3 ''DEF'' ''C'' 55 6 90,
      ex_row 4 ''DEF'' ''D'' 50 1 90, ex_row 5 ''DEF'' ''E'' 45 2 90,
      ex_row 6 ''DEF'' ''A'' 45 2 90, ex_row 9 ''MID'' ''D'' 100 5 90,
      ex_row 10 ''MID'' ''E'' 80 3 90, ex_row 11 ''MID'' ''A'' 65 2 90,
      ex_row 13 ''FWD'' ''C'' 110 8 90, ex_row 14 ''FWD'' ''D'' 75 2 90]"

text \<open>
  A players dict for the role assigner: a bench of goalkeeper 2 and the outfield players
  7, 12 and 15, where 12 and 15 have the same expected points.
\<close>

definition ex_ep_row :: "int \<Rightarrow> string \<Rightarrow> real \<Rightarrow> player" where
  "ex_ep_row pid pos ep =
     \<lparr>player_id = pid, name = ''p'', position = pos, team = ''T'', cost = 50, points = 0,
      minutes = 0, expected_points = ep, unavailable = 0\<rparr>"

definition ex_players :: "int \<rightharpoonup> player" where
  "ex_players =
     [2 \<mapsto> ex_ep_row 2 ''GK'' 3.5, 7 \<mapsto> ex_ep_row 7 ''DEF'' 1.5,
      12 \<mapsto> ex_ep_row 12 ''MID'' 3, 15 \<mapsto> ex_ep_row 15 ''FWD'' 3]"

text \<open>Two squad lists of length 15: one names player 1 twice, one names an id without a row.\<close>

definition ex_squad_duplicate :: "int list" where
  "ex_squad_duplicate = [1, 1, 3, 4, 5, 6, 7, 8, 9, 10, 11, 12, 13, 14, 15]"

definition ex_squad_unknown :: "int list" where
  "ex_squad_unknown = [1, 2, 3, 4, 5, 6, 7, 8, 9, 10, 11, 12, 13, 14, 99]"

text \<open>
  The transfer state before a gameweek on the example table: all fifteen players are
  owned at their current cost, 25 is in the bank. The table has no other player, so the
  only squad that satisfies the constraints is the old one; the values below are such
  an answer of the solver, with the example's starting eleven and player 13 as captain.
\<close>

definition ex_y0 :: "int \<rightharpoonup> int" where
  "ex_y0 = map_of (map (\<lambda>r. (player_id r, 1)) ex_gw)"

definition ex_p0 :: "int \<rightharpoonup> int" where
  "ex_p0 = map_of (map (\<lambda>r. (player_id r, cost r)) ex_gw)"

definition ex_milp_answer :: milp_solution where
  "ex_milp_answer =
     \<lparr>sol_x = (\<lambda>pid. if pid \<in> set ex_starters then 1 else 0),
      sol_y = (\<lambda>pid. if pid \<in> set ex_squad then 1 else 0),
      sol_c = (\<lambda>pid. if pid = 13 then 1 else 0),
      sol_t = (\<lambda>pid. 0),
      sol_s = (\<lambda>pid. 0),
      sol_e = 0\<rparr>"

text \<open>The same answer as the MiniZinc path reads it, and the old prices as a list.\<close>

definition ex_cp_result :: cp_result where
  "ex_cp_result =
     \<lparr>res_x = (\<lambda>pid. if pid \<in> set ex_starters then 1 else 0),
      res_c = (\<lambda>pid. if pid = 13 then 1 else 0),
      res_y = (\<lambda>pid. if pid \<in> set ex_squad then 1 else 0),
      res_t = (\<lambda>pid. 0),
      res_s = (\<lambda>pid. 0)\<rparr>"

definition ex_p0_array :: "int list" where
  "ex_p0_array = map cost ex_gw"

section \<open>Properties of the example rows\<close>

lemma ex_row_simps [simp]:
  "player_id (ex_row pid pos club c pts mins) = pid"
  "position (ex_row pid pos club c pts mins) = pos"
  "team (ex_row pid pos club c pts mins) = club"
  "cost (ex_row pid pos club c pts mins) = c"
  "points (ex_row pid pos club c pts mins) = pts"
  "minutes (ex_row pid pos club c pts mins) = mins"
  "name (ex_row pid pos club c pts mins) = ''p''"
  "expected_points (ex_row pid pos club c pts mins) = 0"
  "unavailable (ex_row pid pos club c pts mins) = 0"
  by (simp_all add: ex_row_def)

section \<open>Integers as floats\<close>

declare bit_length.simps [simp del]

lemma bit_length_le_iff: "bit_length m \<le> k \<longleftrightarrow> m < 2 ^ k"
proof (induction m arbitrary: k rule: bit_length.induct)
  case (1 n)
  show ?case
  proof (cases "n = 0")
    case True
    then show ?thesis by (simp add: bit_length.simps [of 0])
  next
    case False
    show ?thesis
    proof (cases k)
      case 0
      with False show ?thesis by (simp add: bit_length.simps [of n])
    next
      case (Suc j)
      from "1" [OF False, of j] have "bit_length (n div 2) \<le> j \<longleftrightarrow> n div 2 < 2 ^ j" .
      moreover have "n div 2 < 2 ^ j \<longleftrightarrow> n < 2 * 2 ^ j" by auto
      ultimately show ?thesis using False Suc by (simp add: bit_length.simps [of n])
    qed
  qed
qed

lemma round_to_53_bits_exact: "m \<le> 2 ^ 53 \<Longrightarrow> round_to_53_bits m = m"
proof (cases "m < 2 ^ 53")
  case True
  then have "bit_length m \<le> 53" by (simp add: bit_length_le_iff)
  then show ?thesis by (simp add: round_to_53_bits_def)
next
  case False
  assume "m \<le> 2 ^ 53"
  with False have m: "m = 2 ^ 53" by simp
  have "\<not> bit_length m \<le> 53" using False by (simp add: bit_length_le_iff)
  moreover have "bit_length m \<le> 54" unfolding bit_length_le_iff m by simp
  ultimately have b: "bit_length m = 54" by simp
  from b m have b': "bit_length 9007199254740992 = 54" by simp
  show ?thesis unfolding m by (simp add: round_to_53_bits_def Let_def b')
qed
lemma float_of_int_exact: "\<bar>n\<bar> \<le> 2 ^ 53 \<Longrightarrow> float_of_int n = Inr n"
proof -
  assume a: "\<bar>n\<bar> \<le> 2 ^ 53"
  then have le: "nat \<bar>n\<bar> \<le> 2 ^ 53" by (simp add: nat_le_iff)
  have "(2::nat) ^ 53 < 2 ^ 1024" by (rule power_strict_increasing) simp_all
  with le have small: "\<not> nat \<bar>n\<bar> \<ge> 2 ^ 1024" by linarith
  have "sgn n * int (nat \<bar>n\<bar>) = n" by (simp add: mult_sgn_abs)
  with small show ?thesis
    unfolding float_of_int_def round_to_53_bits_exact [OF le] Let_def by (simp only: if_False)
qed


lemma bit_length_eq: "2 ^ k \<le> m \<Longrightarrow> m < 2 ^ Suc k \<Longrightarrow> bit_length m = Suc k"
  using bit_length_le_iff [of m k] bit_length_le_iff [of m "Suc k"] by simp

lemma round_to_53_bits_above:
  "round_to_53_bits (2 ^ 53 + 1) = 2 ^ 53" "round_to_53_bits (2 ^ 53 + 3) = 2 ^ 53 + 4"
proof -
  have "bit_length (2 ^ 53 + 1) = Suc 53" "bit_length (2 ^ 53 + 3) = Suc 53"
    by (rule bit_length_eq; simp)+
  then have b: "bit_length 9007199254740993 = 54" "bit_length 9007199254740995 = 54" by simp_all
  show "round_to_53_bits (2 ^ 53 + 1) = 2 ^ 53" "round_to_53_bits (2 ^ 53 + 3) = 2 ^ 53 + 4"
    by (simp_all add: round_to_53_bits_def Let_def b)
qed

lemma float_of_int_pos:
  "0 < n \<Longrightarrow> round_to_53_bits (nat n) = v \<Longrightarrow> v \<le> 2 ^ 54 \<Longrightarrow> float_of_int n = Inr (int v)"
proof -
  assume n: "0 < n" and v: "round_to_53_bits (nat n) = v" and le: "v \<le> 2 ^ 54"
  have "(2::nat) ^ 54 < 2 ^ 1024" by (rule power_strict_increasing) simp_all
  with le have small: "\<not> v \<ge> 2 ^ 1024" by linarith
  from n have "sgn n = 1" "\<bar>n\<bar> = n" by simp_all
  with v small show ?thesis unfolding float_of_int_def Let_def by simp
qed

text \<open>Beyond that range a float is rounded: two values just above \<open>2 ^ 53\<close>.\<close>

lemma float_of_int_rounds:
  "float_of_int (2 ^ 53 + 1) = Inr (2 ^ 53)" "float_of_int (2 ^ 53 + 3) = Inr (2 ^ 53 + 4)"
proof -
  have "nat (2 ^ 53 + 1) = 2 ^ 53 + 1" "nat (2 ^ 53 + 3) = 2 ^ 53 + 3" by simp_all
  with round_to_53_bits_above
  have r: "round_to_53_bits (nat (2 ^ 53 + 1)) = 2 ^ 53" "round_to_53_bits (nat (2 ^ 53 + 3)) = 2 ^ 53 + 4"
    by simp_all
  from float_of_int_pos [OF _ r(1)] show "float_of_int (2 ^ 53 + 1) = Inr (2 ^ 53)" by simp
  from float_of_int_pos [OF _ r(2)] show "float_of_int (2 ^ 53 + 3) = Inr (2 ^ 53 + 4)" by simp
qed

lemma ceil_half_exact: "\<bar>n\<bar> \<le> 2 ^ 53 \<Longrightarrow> ceil_half n = Inr \<lceil>0.5 * real_of_int n\<rceil>"
  by (simp add: ceil_half_def float_of_int_exact)

section \<open>Selling prices\<close>

lemma milp_selling_price_spec:
  "\<bar>c - pp\<bar> \<le> 2 ^ 53 \<Longrightarrow> milp_selling_price c pp = Inr (spec_selling_price pp c)"
  by (simp add: milp_selling_price_def spec_selling_price_def ceil_half_exact Let_def max_def)

lemma cp_selling_price_spec:
  "0 < pp \<Longrightarrow> \<bar>c - pp\<bar> \<le> 2 ^ 53 \<Longrightarrow> cp_selling_price c pp = Inr (spec_selling_price pp c)"
  by (simp add: cp_selling_price_def spec_selling_price_def ceil_half_exact Let_def max_def)

lemma cp_selling_price_returns:
  "\<bar>c - pp\<bar> \<le> 2 ^ 53 \<Longrightarrow> \<exists>v. cp_selling_price c pp = Inr v"
  by (simp add: cp_selling_price_def ceil_half_exact Let_def)

lemma milp_loop_returns:
  "\<forall>r \<in> set rs. \<exists>pp. p0 (player_id r) = Some pp \<and> \<bar>cost r - pp\<bar> \<le> 2 ^ 53
   \<Longrightarrow> \<exists>sp. milp_selling_prices_loop rs p0 acc = Inr sp"
proof (induction rs arbitrary: acc)
  case Nil
  show ?case by simp
next
  case (Cons a rs)
  then obtain pp where pp: "p0 (player_id a) = Some pp" "\<bar>cost a - pp\<bar> \<le> 2 ^ 53" by auto
  from Cons.prems have "\<forall>r \<in> set rs. \<exists>pp. p0 (player_id r) = Some pp \<and> \<bar>cost r - pp\<bar> \<le> 2 ^ 53"
    by simp
  from Cons.IH [OF this] pp show ?case by (simp add: milp_selling_price_spec)
qed

lemma milp_loop_other:
  "milp_selling_prices_loop rs p0 acc = Inr sp \<Longrightarrow> pid \<notin> player_id ` set rs \<Longrightarrow> sp pid = acc pid"
  by (induction rs arbitrary: acc) (auto split: option.splits sum.splits)

lemma milp_loop_value:
  "milp_selling_prices_loop rs p0 acc = Inr sp \<Longrightarrow> distinct (map player_id rs) \<Longrightarrow> r \<in> set rs
   \<Longrightarrow> p0 (player_id r) = Some pp \<Longrightarrow> milp_selling_price (cost r) pp = Inr v
   \<Longrightarrow> sp (player_id r) = Some v"
proof (induction rs arbitrary: acc)
  case Nil
  then show ?case by simp
next
  case (Cons a rs)
  show ?case
  proof (cases "r = a")
    case True
    from Cons.prems(2) have notin: "player_id a \<notin> player_id ` set rs" by simp
    from Cons.prems(1,4,5) True
    have run: "milp_selling_prices_loop rs p0 (acc(player_id a \<mapsto> v)) = Inr sp"
      by simp
    from milp_loop_other [OF run notin] True show ?thesis by simp
  next
    case False
    with Cons.prems(3) have "r \<in> set rs" by simp
    moreover from Cons.prems(2) have "distinct (map player_id rs)" by simp
    moreover from Cons.prems(1) obtain acc' where "milp_selling_prices_loop rs p0 acc' = Inr sp"
      by (auto split: option.splits sum.splits)
    ultimately show ?thesis using Cons.IH Cons.prems(4,5) by blast
  qed
qed

lemma idx_from_other: "pid \<notin> set pids \<Longrightarrow> player_id_to_idx_from k pids m pid = m pid"
  by (induction pids arbitrary: k m) auto

lemma idx_from_nth:
  "distinct pids \<Longrightarrow> i < length pids \<Longrightarrow> player_id_to_idx_from k pids m (pids ! i) = Some (k + i + 1)"
proof (induction pids arbitrary: k m i)
  case Nil
  then show ?case by simp
next
  case (Cons p ps)
  show ?case
  proof (cases i)
    case 0
    with Cons.prems show ?thesis by (simp add: idx_from_other)
  next
    case (Suc j)
    with Cons show ?thesis by simp
  qed
qed

lemma player_id_to_idx_nth:
  "distinct (map player_id players_df) \<Longrightarrow> i < length players_df
   \<Longrightarrow> player_id_to_idx players_df (player_id (players_df ! i)) = Some (Suc i)"
  using idx_from_nth [of "map player_id players_df" i 0 Map.empty]
  by (simp add: player_id_to_idx_def)

lemma py_index_Suc: "i < length xs \<Longrightarrow> py_index xs (int (Suc i) - 1) = Inr (xs ! i)"
  by (simp add: py_index_def)

lemma cp_loop_returns:
  "\<forall>r \<in> set rs. \<bar>cost r\<bar> \<le> 2 ^ 53
     \<and> (\<exists>i. idx_of (player_id r) = Some (Suc i) \<and> i < length p0_array
              \<and> \<bar>cost r - p0_array ! i\<bar> \<le> 2 ^ 53)
   \<Longrightarrow> \<exists>sp. calculate_selling_prices_loop rs p0_array idx_of acc = Inr sp"
proof (induction rs arbitrary: acc)
  case Nil
  then show ?case by simp
next
  case (Cons a rs)
  then obtain i where i: "idx_of (player_id a) = Some (Suc i)" "i < length p0_array"
    "\<bar>cost a - p0_array ! i\<bar> \<le> 2 ^ 53" and c: "\<bar>cost a\<bar> \<le> 2 ^ 53" by auto
  from cp_selling_price_returns [OF i(3)] obtain v where
    v: "cp_selling_price (cost a) (p0_array ! i) = Inr v" by blast
  from Cons.prems have "\<forall>r \<in> set rs. \<bar>cost r\<bar> \<le> 2 ^ 53
     \<and> (\<exists>i. idx_of (player_id r) = Some (Suc i) \<and> i < length p0_array
              \<and> \<bar>cost r - p0_array ! i\<bar> \<le> 2 ^ 53)"
    by simp
  from Cons.IH [OF this] i c v show ?case
    by (simp add: py_index_Suc float_of_int_exact del: of_nat_Suc)
qed

lemma cp_loop_other:
  "calculate_selling_prices_loop rs p0_array idx_of acc = Inr sp \<Longrightarrow> pid \<notin> player_id ` set rs
   \<Longrightarrow> sp pid = acc pid"
  by (induction rs arbitrary: acc) (auto simp: Let_def split: option.splits sum.splits)

lemma cp_loop_value:
  "calculate_selling_prices_loop rs p0_array idx_of acc = Inr sp \<Longrightarrow> distinct (map player_id rs)
   \<Longrightarrow> r \<in> set rs \<Longrightarrow> idx_of (player_id r) = Some (Suc i) \<Longrightarrow> i < length p0_array
   \<Longrightarrow> \<bar>cost r\<bar> \<le> 2 ^ 53 \<Longrightarrow> cp_selling_price (cost r) (p0_array ! i) = Inr v
   \<Longrightarrow> sp (player_id r) = Some v"
proof (induction rs arbitrary: acc)
  case Nil
  then show ?case by simp
next
  case (Cons a rs)
  show ?case
  proof (cases "r = a")
    case True
    from Cons.prems(2) have notin: "player_id a \<notin> player_id ` set rs" by simp
    from Cons.prems(1,4,5,6,7) True
    have run: "calculate_selling_prices_loop rs p0_array idx_of (acc(player_id a \<mapsto> v)) = Inr sp"
      by (simp add: py_index_Suc float_of_int_exact del: of_nat_Suc)
    from cp_loop_other [OF run notin] True show ?thesis by simp
  next
    case False
    with Cons.prems(3) have "r \<in> set rs" by simp
    moreover from Cons.prems(2) have "distinct (map player_id rs)" by simp
    moreover from Cons.prems(1) obtain acc' where "calculate_selling_prices_loop rs p0_array idx_of acc' = Inr sp"
      by (auto simp: Let_def split: option.splits sum.splits)
    ultimately show ?thesis using Cons.IH Cons.prems(4,5,6,7) by blast
  qed
qed

text \<open>
  Claim C3. For an owned player (a purchase price is recorded and is positive), the
  selling price that the transfer-state update works with is the purchase price plus
  half of the profit, rounded up, when the current cost is above the purchase price, and
  the current cost otherwise. This holds on the MILP path (first conjunct) and on the
  MiniZinc path (second conjunct), on a table whose ids are distinct and whose players
  all have a recorded purchase price, for prices in the range in which the source's
  floats are exact: every difference of cost and purchase price, and on the MiniZinc
  path every cost, is at most \<open>2 ^ 53\<close> in magnitude. Both computations then succeed.
\<close>

theorem selling_price_of_owned_player:
  "(distinct (map player_id players_df)
      \<and> (\<forall>r \<in> set players_df. \<exists>pp. p0 (player_id r) = Some pp \<and> \<bar>cost r - pp\<bar> \<le> 2 ^ 53) \<longrightarrow>
      (\<exists>sp. milp_selling_prices players_df p0 = Inr sp \<and>
         (\<forall>r \<in> set players_df. \<forall>pp. p0 (player_id r) = Some pp \<and> 0 < pp \<longrightarrow>
            sp (player_id r) = Some (spec_selling_price pp (cost r)))))
   \<and> (distinct (map player_id players_df) \<and> length players_df \<le> length p0_array
        \<and> (\<forall>i < length players_df. \<bar>cost (players_df ! i)\<bar> \<le> 2 ^ 53
              \<and> \<bar>cost (players_df ! i) - p0_array ! i\<bar> \<le> 2 ^ 53) \<longrightarrow>
      (\<exists>sp. calculate_selling_prices players_df p0_array (player_id_to_idx players_df) = Inr sp \<and>
         (\<forall>i < length players_df. 0 < p0_array ! i \<longrightarrow>
            sp (player_id (players_df ! i)) = Some (spec_selling_price (p0_array ! i) (cost (players_df ! i))))))"
proof (intro conjI impI)
  assume a: "distinct (map player_id players_df)
      \<and> (\<forall>r \<in> set players_df. \<exists>pp. p0 (player_id r) = Some pp \<and> \<bar>cost r - pp\<bar> \<le> 2 ^ 53)"
  then obtain sp where sp: "milp_selling_prices_loop players_df p0 Map.empty = Inr sp"
    using milp_loop_returns by blast
  have "\<forall>r \<in> set players_df. \<forall>pp. p0 (player_id r) = Some pp \<and> 0 < pp \<longrightarrow>
          sp (player_id r) = Some (spec_selling_price pp (cost r))"
  proof (intro ballI allI impI)
    fix r pp assume r: "r \<in> set players_df" and pp: "p0 (player_id r) = Some pp \<and> 0 < pp"
    with a have "\<bar>cost r - pp\<bar> \<le> 2 ^ 53" by fastforce
    then have "milp_selling_price (cost r) pp = Inr (spec_selling_price pp (cost r))"
      by (rule milp_selling_price_spec)
    from milp_loop_value [OF sp _ r _ this] a pp
    show "sp (player_id r) = Some (spec_selling_price pp (cost r))" by simp
  qed
  with sp a show "\<exists>sp. milp_selling_prices players_df p0 = Inr sp \<and>
         (\<forall>r \<in> set players_df. \<forall>pp. p0 (player_id r) = Some pp \<and> 0 < pp \<longrightarrow>
            sp (player_id r) = Some (spec_selling_price pp (cost r)))"
    by (simp add: milp_selling_prices_def)
next
  assume a: "distinct (map player_id players_df) \<and> length players_df \<le> length p0_array
        \<and> (\<forall>i < length players_df. \<bar>cost (players_df ! i)\<bar> \<le> 2 ^ 53
              \<and> \<bar>cost (players_df ! i) - p0_array ! i\<bar> \<le> 2 ^ 53)"
  let ?idx = "player_id_to_idx players_df"
  have idx: "\<And>i. i < length players_df \<Longrightarrow> ?idx (player_id (players_df ! i)) = Some (Suc i)"
    using a by (simp add: player_id_to_idx_nth)
  have "\<forall>r \<in> set players_df. \<bar>cost r\<bar> \<le> 2 ^ 53
     \<and> (\<exists>i. ?idx (player_id r) = Some (Suc i) \<and> i < length p0_array
              \<and> \<bar>cost r - p0_array ! i\<bar> \<le> 2 ^ 53)"
  proof
    fix r assume "r \<in> set players_df"
    then obtain i where i: "i < length players_df" "players_df ! i = r"
      by (auto simp: in_set_conv_nth)
    with a have "\<bar>cost r\<bar> \<le> 2 ^ 53" "\<bar>cost r - p0_array ! i\<bar> \<le> 2 ^ 53" "i < length p0_array"
      by auto
    with idx [OF i(1)] i(2)
    show "\<bar>cost r\<bar> \<le> 2 ^ 53
     \<and> (\<exists>i. ?idx (player_id r) = Some (Suc i) \<and> i < length p0_array
              \<and> \<bar>cost r - p0_array ! i\<bar> \<le> 2 ^ 53)" by auto
  qed
  then obtain sp where sp: "calculate_selling_prices_loop players_df p0_array ?idx Map.empty = Inr sp"
    using cp_loop_returns by blast
  have "\<forall>i < length players_df. 0 < p0_array ! i \<longrightarrow>
          sp (player_id (players_df ! i)) = Some (spec_selling_price (p0_array ! i) (cost (players_df ! i)))"
  proof (intro allI impI)
    fix i assume i: "i < length players_df" and pos: "0 < p0_array ! i"
    from i a have b: "i < length p0_array" "\<bar>cost (players_df ! i)\<bar> \<le> 2 ^ 53"
      "\<bar>cost (players_df ! i) - p0_array ! i\<bar> \<le> 2 ^ 53" by auto
    from cp_selling_price_spec [OF pos b(3)]
    have v: "cp_selling_price (cost (players_df ! i)) (p0_array ! i)
               = Inr (spec_selling_price (p0_array ! i) (cost (players_df ! i)))" .
    from cp_loop_value [OF sp _ _ idx [OF i] b(1) b(2) v] a i
    show "sp (player_id (players_df ! i)) = Some (spec_selling_price (p0_array ! i) (cost (players_df ! i)))"
      by simp
  qed
  with sp show "\<exists>sp. calculate_selling_prices players_df p0_array ?idx = Inr sp \<and>
         (\<forall>i < length players_df. 0 < p0_array ! i \<longrightarrow>
            sp (player_id (players_df ! i)) = Some (spec_selling_price (p0_array ! i) (cost (players_df ! i))))"
    by (simp add: calculate_selling_prices_def)
qed

text \<open>
  The claim's own examples: bought at 50 and now at 70 sells for 60; bought at 50 and now
  at 45 sells for 45.
\<close>

theorem selling_price_of_owned_player_witness:
  "(\<exists>sp. milp_selling_prices ex_prices [1 \<mapsto> 50, 2 \<mapsto> 50] = Inr sp \<and> sp 1 = Some 60 \<and> sp 2 = Some 45)
   \<and> (\<exists>sp. calculate_selling_prices ex_prices [50, 50] (player_id_to_idx ex_prices) = Inr sp
         \<and> sp 1 = Some 60 \<and> sp 2 = Some 45)"
proof -
  have d: "distinct (map player_id ex_prices)" by (simp add: ex_prices_def)
  have k: "\<forall>r \<in> set ex_prices. \<exists>pp. [1 \<mapsto> 50, 2 \<mapsto> (50::int)] (player_id r) = Some pp
             \<and> \<bar>cost r - pp\<bar> \<le> 2 ^ 53"
    by (simp add: ex_prices_def)
  have l: "length ex_prices \<le> length [50, 50::int]" by (simp add: ex_prices_def)
  have b: "\<forall>i < length ex_prices. \<bar>cost (ex_prices ! i)\<bar> \<le> 2 ^ 53
              \<and> \<bar>cost (ex_prices ! i) - [50, 50] ! i\<bar> \<le> 2 ^ 53"
    by (simp add: ex_prices_def less_Suc_eq)
  have v: "spec_selling_price 50 70 = 60" "spec_selling_price 50 45 = 45"
    by (simp_all add: spec_selling_price_def)
  note t = selling_price_of_owned_player [of ex_prices "[1 \<mapsto> 50, 2 \<mapsto> 50]" "[50, 50]"]
  from t d k obtain sp where sp: "milp_selling_prices ex_prices [1 \<mapsto> 50, 2 \<mapsto> 50] = Inr sp"
    "\<forall>r \<in> set ex_prices. \<forall>pp. [1 \<mapsto> 50, 2 \<mapsto> (50::int)] (player_id r) = Some pp \<and> 0 < pp \<longrightarrow>
            sp (player_id r) = Some (spec_selling_price pp (cost r))"
    by blast
  from sp(2) v have m: "sp 1 = Some 60 \<and> sp 2 = Some 45" by (simp add: ex_prices_def)
  from t d l b obtain sq where sq: "calculate_selling_prices ex_prices [50, 50] (player_id_to_idx ex_prices) = Inr sq"
    "\<forall>i < length ex_prices. 0 < [50, 50::int] ! i \<longrightarrow>
            sq (player_id (ex_prices ! i)) = Some (spec_selling_price ([50, 50] ! i) (cost (ex_prices ! i)))"
    by blast
  from sq(2) [rule_format, of 0] sq(2) [rule_format, of 1] v
  have c: "sq 1 = Some 60 \<and> sq 2 = Some 45" by (simp add: ex_prices_def)
  from sp(1) m sq(1) c show ?thesis by blast
qed

section \<open>Free transfers\<close>

text \<open>What each path hands to the next gameweek as its free-transfer count.\<close>

lemma milp_free_transfers:
  "optimize_post_gw1_step1 players_df y0 p0 f B_bank (Some sol) = Inr st
   \<Longrightarrow> f_next st = max 0 (f - total_transfers_made players_df (sol_t sol))"
  by (auto simp: optimize_post_gw1_step1_def Let_def milp_remaining_free_transfers_def
           split: sum.splits if_splits)

lemma cp_free_transfers:
  "parse_post_gw1_output (Some res) players_df p0 f B_bank = Inr (st, post_hoc)
   \<Longrightarrow> f_next st = spec_new_free f (total_transfers_made players_df (res_t res))"
  by (auto simp: parse_post_gw1_output_def Let_def cp_f_new_def spec_new_free_def
           split: sum.splits)

text \<open>
  Only values that satisfy the constraints reach the state update, and without an
  outcome of the solver the step raises.
\<close>

lemma milp_returns_only_feasible:
  "optimize_post_gw1_step1 players_df y0 p0 f B_bank outcome = Inr st
   \<Longrightarrow> \<exists>sol selling_prices. outcome = Some sol
         \<and> milp_selling_prices players_df p0 = Inr selling_prices
         \<and> milp_constraints players_df y0 f B_bank selling_prices sol"
  by (auto simp: optimize_post_gw1_step1_def split: sum.splits if_splits option.splits)

lemma lp_sum_binary_le:
  "list_all (\<lambda>pid. v pid \<in> {0, 1}) pids \<Longrightarrow> lp_sum v pids \<le> int (length pids)"
  by (induction pids) (auto simp: lp_sum_def)

text \<open>A table of fewer than fifteen players has no squad: the step raises on it.\<close>

lemma milp_short_table_fails:
  assumes "length players_df < 15"
  shows "\<exists>e. optimize_post_gw1_step1 players_df y0 p0 f B_bank outcome = Inl e"
proof (cases "optimize_post_gw1_step1 players_df y0 p0 f B_bank outcome")
  case (Inl e)
  then show ?thesis by blast
next
  case (Inr st)
  from milp_returns_only_feasible [OF Inr] obtain sol selling_prices where
    c: "milp_constraints players_df y0 f B_bank selling_prices sol" by blast
  then have "list_all (\<lambda>pid. sol_y sol pid \<in> {0, 1}) (map player_id players_df)"
    and "lp_sum (sol_y sol) (map player_id players_df) = 15"
    by (auto simp: milp_constraints_def Let_def list_all_iff)
  with lp_sum_binary_le [of "sol_y sol" "map player_id players_df"] assms
  show ?thesis by simp
qed

text \<open>
  When every player of the table is in the old squad, no values that satisfy the
  constraints buy anybody.
\<close>

lemma lp_sum_zero: "\<forall>pid \<in> set pids. v pid = 0 \<Longrightarrow> sum_list (map v pids) = 0"
  by (induction pids) auto

lemma milp_all_owned_buys_nobody:
  assumes "milp_constraints players_df y0 f B_bank selling_prices sol"
    and "\<forall>r \<in> set players_df. y0 (player_id r) = Some 1"
  shows "total_transfers_made players_df (sol_t sol) = 0"
proof -
  have "\<forall>pid \<in> set (remdups (map player_id players_df)). sol_t sol pid = 0"
  proof
    fix pid assume "pid \<in> set (remdups (map player_id players_df))"
    then have pid: "pid \<in> set (map player_id players_df)" by simp
    then obtain r where r: "r \<in> set players_df" "pid = player_id r" by auto
    from assms(1) pid have "sol_t sol pid \<in> {0, 1}" "sol_t sol pid \<le> 1 - dict_value y0 pid"
      by (auto simp: milp_constraints_def Let_def list_all_iff)
    moreover from assms(2) r have "dict_value y0 pid = 1" by (simp add: dict_value_def)
    ultimately show "sol_t sol pid = 0" by auto
  qed
  then show ?thesis unfolding total_transfers_made_def by (rule lp_sum_zero)
qed

lemma ex_y0_all_owned: "\<forall>r \<in> set ex_gw. ex_y0 (player_id r) = Some 1"
  by (simp add: ex_gw_def ex_y0_def)

text \<open>
  On the example table with one free transfer, whatever values the solver hands back,
  the MILP step that returns hands on one free transfer.
\<close>

lemma milp_example_every_answer:
  "optimize_post_gw1_step1 ex_gw ex_y0 p0 1 B_bank outcome = Inr st \<Longrightarrow> f_next st = 1"
proof -
  assume run: "optimize_post_gw1_step1 ex_gw ex_y0 p0 1 B_bank outcome = Inr st"
  from milp_returns_only_feasible [OF run] obtain sol selling_prices where
    s: "outcome = Some sol" "milp_constraints ex_gw ex_y0 1 B_bank selling_prices sol" by blast
  from milp_all_owned_buys_nobody [OF s(2) ex_y0_all_owned]
  have "total_transfers_made ex_gw (sol_t sol) = 0" .
  with milp_free_transfers [of ex_gw ex_y0 p0 1 B_bank sol st] run s(1) show ?thesis by simp
qed

text \<open>
  The example answer is one the solver can give: it satisfies the constraints, and no
  values that satisfy them have a greater objective.
\<close>

lemma ex_milp_answer_optimal:
  "milp_constraints ex_gw ex_y0 1 25 selling_prices sol
   \<Longrightarrow> milp_objective ex_gw sol \<le> milp_objective ex_gw ex_milp_answer"
proof -
  assume "milp_constraints ex_gw ex_y0 1 25 selling_prices sol"
  then have "0 \<le> sol_e sol" by (simp add: milp_constraints_def Let_def)
  then show ?thesis by (simp add: milp_objective_def ex_gw_def ex_milp_answer_def)
qed

text \<open>
  Claim C1. The carry-over rule (an unused free transfer is banked, up to 2, and the
  count is 1 after all free transfers were used or exceeded) is not what the MILP path
  computes: it returns \<open>max(0, f - made)\<close>. On the example table, with one free transfer
  and the solver's answer that keeps the squad and so buys nobody, the MILP step
  returns and hands on 1 free transfer, where the rule gives 2.
\<close>

theorem milp_drops_free_transfer_carryover:
  "map_sum id f_next (optimize_post_gw1_step1 ex_gw ex_y0 ex_p0 1 25 (Some ex_milp_answer)) = Inr 1
   \<and> total_transfers_made ex_gw (sol_t ex_milp_answer) = 0
   \<and> spec_new_free 1 0 = 2"
  by (simp add: optimize_post_gw1_step1_def milp_selling_prices_def ex_gw_def ex_p0_def ex_y0_def
        milp_selling_price_def milp_constraints_def ex_milp_answer_def lp_sum_def ids_at_def
        ex_starters_def ex_squad_def purchase_costs_def dict_value_def total_transfers_made_def
        milp_remaining_free_transfers_def spec_new_free_def Let_def)

text \<open>
  The MiniZinc path on the same table and the same answer hands on 2 free transfers,
  with player 1 as vice-captain and the bench order 2, 7, 12, 15.
\<close>

lemma cp_example_post_hoc:
  "process_post_gw1_solution ex_gw (res_x ex_cp_result) (res_y ex_cp_result) (res_c ex_cp_result)
     = Inr (1, [2, 7, 12, 15])"
  by (simp add: process_post_gw1_solution_def ex_gw_def ex_cp_result_def ones_def
        ex_starters_def ex_squad_def ep_of_def assign_bench_positions_def is_gk_def
        sorted_reverse_def Let_def)

lemma cp_example_selling_prices:
  "\<exists>sp. calculate_selling_prices ex_gw ex_p0_array (player_id_to_idx ex_gw) = Inr sp
        \<and> selling_proceeds sp (\<lambda>pid. 0) (map player_id ex_gw) = Inr 0"
  by (simp add: calculate_selling_prices_def player_id_to_idx_def ex_gw_def ex_p0_array_def
        py_index_def float_of_int_exact cp_selling_price_def)

lemma cp_example_p0_new:
  "\<exists>p0_new. cp_p0_new ex_gw ex_p0_array (player_id_to_idx ex_gw) (\<lambda>pid. 0) (\<lambda>pid. 0) Map.empty
             = Inr p0_new"
  by (simp add: player_id_to_idx_def ex_gw_def ex_p0_array_def py_index_def)

lemma cp_example_carries_over:
  "map_sum id (\<lambda>(st, post_hoc). (f_next st, post_hoc))
     (parse_post_gw1_output (Some ex_cp_result) ex_gw ex_p0_array 1 25) = Inr (2, 1, [2, 7, 12, 15])"
proof -
  from cp_example_selling_prices obtain sp where
    sp: "calculate_selling_prices ex_gw ex_p0_array (player_id_to_idx ex_gw) = Inr sp"
        "selling_proceeds sp (\<lambda>pid. 0) (map player_id ex_gw) = Inr 0" by blast
  from cp_example_p0_new obtain p0_new where
    p: "cp_p0_new ex_gw ex_p0_array (player_id_to_idx ex_gw) (\<lambda>pid. 0) (\<lambda>pid. 0) Map.empty
          = Inr p0_new" by blast
  have t: "res_t ex_cp_result = (\<lambda>pid. 0)" "res_s ex_cp_result = (\<lambda>pid. 0)"
    by (simp_all add: ex_cp_result_def)
  have m: "total_transfers_made ex_gw (\<lambda>pid. 0) = 0" by (simp add: total_transfers_made_def)
  show ?thesis
    by (simp add: parse_post_gw1_output_def Let_def t p sp m cp_f_new_def cp_example_post_hoc)
qed

section \<open>Formation check\<close>

lemma position_count_sum_le:
  "position_count ps ''GK'' + position_count ps ''DEF'' + position_count ps ''MID''
     + position_count ps ''FWD'' \<le> length ps"
  by (induction ps) (auto simp: position_count_def)

lemma position_count_sum_eq:
  "\<forall>r \<in> set ps. position r \<in> {''GK'', ''DEF'', ''MID'', ''FWD''}
   \<Longrightarrow> position_count ps ''GK'' + position_count ps ''DEF'' + position_count ps ''MID''
     + position_count ps ''FWD'' = length ps"
  by (induction ps) (auto simp: position_count_def)

text \<open>
  Once the goalkeeper and defender rules hold there are at least four players, and once
  the midfielder rule holds as well there are at least six: a set passes exactly when
  all four bounds hold.
\<close>

lemma validate_formation_full_bounds:
  "validate_formation ps = None \<longleftrightarrow>
     position_count ps ''GK'' = 1
     \<and> 3 \<le> position_count ps ''DEF'' \<and> position_count ps ''DEF'' \<le> 5
     \<and> 2 \<le> position_count ps ''MID'' \<and> position_count ps ''MID'' \<le> 5
     \<and> 1 \<le> position_count ps ''FWD'' \<and> position_count ps ''FWD'' \<le> 3"
  by (auto simp: validate_formation_def Let_def)

text \<open>
  Claim C7. With the counts of the four positions and \<open>n\<close> their sum (the size of the
  set when every player has one of the four positions): the check passes exactly when
  GK = 1, DEF is in [3,5], MID is in [2,5] if \<open>n \<ge> 4\<close>, and FWD is in [1,3] if
  \<open>n \<ge> 5\<close>; and the reason returned is that of the first rule violated in the order
  GK, DEF, MID, FWD.
\<close>

theorem formation_rules_in_order:
  fixes ps :: "player list"
  defines "gk \<equiv> position_count ps ''GK''"
    and "defn \<equiv> position_count ps ''DEF''"
    and "mid \<equiv> position_count ps ''MID''"
    and "fwd \<equiv> position_count ps ''FWD''"
  defines "n \<equiv> gk + defn + mid + fwd"
  shows "(validate_formation ps = None \<longleftrightarrow>
            gk = 1 \<and> (3 \<le> defn \<and> defn \<le> 5)
            \<and> (n \<ge> 4 \<longrightarrow> 2 \<le> mid \<and> mid \<le> 5)
            \<and> (n \<ge> 5 \<longrightarrow> 1 \<le> fwd \<and> fwd \<le> 3))
         \<and> (gk \<noteq> 1 \<longrightarrow> validate_formation ps = Some (FormationGK gk))
         \<and> (gk = 1 \<and> \<not> (3 \<le> defn \<and> defn \<le> 5) \<longrightarrow>
              validate_formation ps = Some (FormationDEF defn))
         \<and> (gk = 1 \<and> (3 \<le> defn \<and> defn \<le> 5) \<and> n \<ge> 4 \<and> \<not> (2 \<le> mid \<and> mid \<le> 5) \<longrightarrow>
              validate_formation ps = Some (FormationMID mid))
         \<and> (gk = 1 \<and> (3 \<le> defn \<and> defn \<le> 5) \<and> (n \<ge> 4 \<longrightarrow> 2 \<le> mid \<and> mid \<le> 5)
              \<and> n \<ge> 5 \<and> \<not> (1 \<le> fwd \<and> fwd \<le> 3) \<longrightarrow>
              validate_formation ps = Some (FormationFWD fwd))
         \<and> ((\<forall>r \<in> set ps. position r \<in> {''GK'', ''DEF'', ''MID'', ''FWD''}) \<longrightarrow>
              n = length ps)"
  unfolding gk_def defn_def mid_def fwd_def n_def
  using position_count_sum_eq [of ps]
  by (auto simp: validate_formation_def Let_def)

text \<open>
  On GK, DEF, DEF, DEF the total is 4, so the midfielder rule applies and fails with
  MID = 0.
\<close>

theorem formation_rules_in_order_witness:
  "position_count ex_gk_three_def ''GK'' = 1
   \<and> position_count ex_gk_three_def ''DEF'' = 3
   \<and> position_count ex_gk_three_def ''MID'' = 0
   \<and> map position ex_gk_three_def = [''GK'', ''DEF'', ''DEF'', ''DEF'']
   \<and> length ex_gk_three_def = 4
   \<and> validate_formation ex_gk_three_def = Some (FormationMID 0)"
proof -
  have c: "position_count ex_gk_three_def ''GK'' = 1" "position_count ex_gk_three_def ''DEF'' = 3"
    "position_count ex_gk_three_def ''MID'' = 0" "position_count ex_gk_three_def ''FWD'' = 0"
    by (simp_all add: ex_gk_three_def_def position_count_def)
  have p: "\<forall>r \<in> set ex_gk_three_def. position r \<in> {''GK'', ''DEF'', ''MID'', ''FWD''}"
    by (simp add: ex_gk_three_def_def)
  have m: "map position ex_gk_three_def = [''GK'', ''DEF'', ''DEF'', ''DEF'']"
    by (simp add: ex_gk_three_def_def)
  from formation_rules_in_order [of ex_gk_three_def] c p
  have "validate_formation ex_gk_three_def = Some (FormationMID 0) \<and> length ex_gk_three_def = 4"
    by simp
  with c m show ?thesis by simp
qed

text \<open>
  Claim C2, as the code has it. A set that holds one goalkeeper and nothing else does
  not pass: the goalkeeper rule holds, and the defender rule, which applies at every
  size, fails with DEF = 0.
\<close>

theorem lone_goalkeeper_fails_defender_rule:
  "position r = ''GK'' \<Longrightarrow> validate_formation [r] = Some (FormationDEF 0)"
  by (simp add: validate_formation_def position_count_def)

theorem lone_goalkeeper_fails_defender_rule_witness:
  "position (ex_row 1 ''GK'' ''A'' 50 2 90) = ''GK''
   \<and> validate_formation [ex_row 1 ''GK'' ''A'' 50 2 90] = Some (FormationDEF 0)"
  using lone_goalkeeper_fails_defender_rule [of "ex_row 1 ''GK'' ''A'' 50 2 90"] by simp

text \<open>The claim as stated, that the check on a single goalkeeper succeeds, is false.\<close>

theorem lone_goalkeeper_not_legal:
  "length ex_lone_gk = 1 \<and> position (hd ex_lone_gk) = ''GK'' \<and> validate_formation ex_lone_gk \<noteq> None"
  by (simp add: ex_lone_gk_def validate_formation_def position_count_def)

section \<open>Gameweek scorer: no starter played, and the armband\<close>

text \<open>
  Claim C9. When no starter's row has minutes above 0, the scorer returns the total 0,
  an empty active set and the four-key breakdown with an empty substitution list and
  both armband flags false. The bench is not looked at: the result is the same for
  every bench dict, also for one without any slot, on which the bench loop would raise.
\<close>

theorem no_starter_played:
  assumes "\<forall>r \<in> set gw_df. player_id r \<in> set starter_ids \<longrightarrow> \<not> minutes r > 0"
  shows "calculate_gameweek_points gw_df starter_ids bench_ids captain_id vice_id
           = Inr (0, [], NoPlayDetails [] False False 0)"
proof -
  have "filter (\<lambda>r. minutes r > 0) (isin gw_df starter_ids) = []"
    using assms by (auto simp: isin_def filter_empty_conv)
  then show ?thesis by (simp add: calculate_gameweek_points_def)
qed

theorem no_starter_played_witness:
  "map minutes (isin ex_idle [1, 2]) = [0, 0]
   \<and> calculate_gameweek_points ex_idle [1, 2] [] 1 2 = Inr (0, [], NoPlayDetails [] False False 0)
   \<and> bench_loop ex_idle [] [1, 2, 3, 4] [] [] = Inl KeyError"
proof -
  have h: "\<forall>r \<in> set ex_idle. player_id r \<in> set [1, 2] \<longrightarrow> \<not> minutes r > 0"
    by (simp add: ex_idle_def)
  have b: "bench_loop ex_idle [] [1, 2, 3, 4] [] [] = Inl KeyError" by simp
  have m: "map minutes (isin ex_idle [1, 2]) = [0, 0]" by (simp add: ex_idle_def isin_def)
  from no_starter_played [OF h, of "[]" 1 2] m b show ?thesis by blast
qed

lemma first_points_member:
  "pid \<in> set (map player_id active) \<Longrightarrow>
     \<exists>r. find (\<lambda>r. player_id r = pid) active = Some r \<and> first_points active pid = Inr (points r)"
  by (induction active) (auto simp: first_points_def rows_of_def)

lemma bench_loop_nonempty:
  "bench_loop gw_df bench_ids slots active subs = Inr (final, subs') \<Longrightarrow> active \<noteq> [] \<Longrightarrow> final \<noteq> []"
  by (induction gw_df bench_ids slots active subs rule: bench_loop.induct)
     (auto simp: Let_def split: if_splits option.splits list.splits)

text \<open>
  Claim C4. For a run that ends with a non-empty active set the breakdown is the
  seven-key one, the base points are the sum over the active set and the total is base
  plus bonus. If the captain's id is in the active set the bonus is the points of the
  captain's row there and the armband used is the captain's; otherwise, if the vice's
  id is in the active set, the bonus is the points of the vice's row, once, and the
  armband used is the vice's; otherwise the bonus is 0 and no armband is used.
\<close>

theorem armband_bonus:
  assumes "calculate_gameweek_points gw_df starter_ids bench_ids captain_id vice_id
             = Inr (total_points, active, d)"
    and "active \<noteq> []"
  shows "total_points = base_points d + captain_bonus d
         \<and> base_points d = sum_list (map points active)
         \<and> (captain_id \<in> set (map player_id active) \<longrightarrow>
              captain_used d = Some Captain
              \<and> (\<exists>r. find (\<lambda>r. player_id r = captain_id) active = Some r
                     \<and> captain_bonus d = points r
                     \<and> total_points = sum_list (map points active) + points r))
         \<and> (captain_id \<notin> set (map player_id active) \<and> vice_id \<in> set (map player_id active) \<longrightarrow>
              captain_used d = Some Vice
              \<and> (\<exists>r. find (\<lambda>r. player_id r = vice_id) active = Some r
                     \<and> captain_bonus d = points r
                     \<and> total_points = sum_list (map points active) + points r))
         \<and> (captain_id \<notin> set (map player_id active) \<and> vice_id \<notin> set (map player_id active) \<longrightarrow>
              captain_used d = None \<and> captain_bonus d = 0
              \<and> total_points = sum_list (map points active))"
proof -
  from assms obtain subs where
    run: "apply_captaincy active subs captain_id vice_id = Inr (total_points, active, d)"
    by (auto simp: calculate_gameweek_points_def Let_def apply_captaincy_def
             split: if_splits sum.splits prod.splits)
  show ?thesis
  proof (cases "captain_id \<in> set (map player_id active)")
    case True
    from first_points_member [OF True] obtain r where
      r: "find (\<lambda>r. player_id r = captain_id) active = Some r"
         "first_points active captain_id = Inr (points r)" by blast
    with run True show ?thesis by (auto simp: apply_captaincy_def Let_def)
  next
    case False
    show ?thesis
    proof (cases "vice_id \<in> set (map player_id active)")
      case True
      from first_points_member [OF True] obtain r where
        r: "find (\<lambda>r. player_id r = vice_id) active = Some r"
           "first_points active vice_id = Inr (points r)" by blast
      with run False True show ?thesis by (auto simp: apply_captaincy_def Let_def)
    next
      case nv: False
      with run False show ?thesis by (auto simp: apply_captaincy_def Let_def)
    qed
  qed
qed

lemma ex_validate_team: "validate_team ex_gw ex_squad ex_starters ex_bench 8 9 = Inr None"
  by (simp add: validate_team_def ex_gw_def ex_squad_def ex_starters_def ex_bench_def isin_def
        expected_def position_count_def over_limit_def team_count_def validate_starters_def
        validate_bench_def rows_of_def validate_captaincy_def)

lemma ex_bench_loop:
  "bench_loop ex_gw ex_bench [1, 2, 3, 4] (filter (\<lambda>r. minutes r > 0) (isin ex_gw ex_starters)) []
     = Inr (ex_final_active, ex_subs)"
  by (simp add: ex_gw_def ex_starters_def ex_bench_def isin_def rows_of_def
        validate_formation_def position_count_def ex_final_active_def ex_subs_def)

lemma ex_score:
  "calculate_gameweek_points ex_gw ex_starters ex_bench 8 9
     = Inr (41, ex_final_active, Details ex_subs False True (Some Vice) 5 36 11)"
  unfolding calculate_gameweek_points_def Let_def ex_bench_loop
  by (simp add: ex_gw_def ex_starters_def isin_def apply_captaincy_def ex_final_active_def first_points_def rows_of_def)

section \<open>Gameweek scorer: the bench pass\<close>

lemma ex_score_captain:
  "calculate_gameweek_points ex_gw ex_starters ex_bench 13 9
     = Inr (44, ex_final_active, Details ex_subs True True (Some Captain) 8 36 11)"
  unfolding calculate_gameweek_points_def Let_def ex_bench_loop
  by (simp add: ex_gw_def ex_starters_def isin_def apply_captaincy_def ex_final_active_def
        first_points_def rows_of_def)

lemma slot_rows_Nil [simp]: "slot_rows gw_df bench_ids [] = []"
  by (simp add: slot_rows_def)

lemma slot_subs_Nil [simp]: "slot_subs gw_df bench_ids [] = []"
  by (simp add: slot_subs_def)

lemma slot_rows_Cons:
  "bench_player gw_df bench_ids k = Some p \<Longrightarrow>
     slot_rows gw_df bench_ids (k # ks) = p # slot_rows gw_df bench_ids ks"
  by (simp add: slot_rows_def)

lemma slot_subs_Cons:
  "bench_player gw_df bench_ids k = Some p \<Longrightarrow>
     slot_subs gw_df bench_ids (k # ks) =
       \<lparr>sub_player_id = player_id p, sub_name = name p, sub_position = position p,
        sub_bench_pos = k, sub_points = points p\<rparr> # slot_subs gw_df bench_ids ks"
  by (simp add: slot_subs_def)

lemma bench_player_SomeD:
  "bench_player gw_df bench_ids k = Some p \<Longrightarrow>
     \<exists>pid rest. map_of bench_ids k = Some pid \<and> rows_of gw_df pid = p # rest"
  by (auto simp: bench_player_def split: option.splits list.splits)

lemma bench_loop_characterised:
  assumes "sorted_wrt (<) slots"
    and "\<forall>k \<in> set slots. bench_player gw_df bench_ids k \<noteq> None"
  shows "\<exists>cs. bench_loop gw_df bench_ids slots active subs
                 = Inr (active @ slot_rows gw_df bench_ids cs, subs @ slot_subs gw_df bench_ids cs)
              \<and> sorted_wrt (<) cs \<and> set cs \<subseteq> set slots
              \<and> (\<forall>k \<in> set slots. k \<in> set cs \<longleftrightarrow> slot_commits gw_df bench_ids active cs k)"
  using assms
proof (induction slots arbitrary: active subs)
  case Nil
  show ?case by (rule exI [of _ "[]"]) simp
next
  case (Cons k rest)
  from Cons.prems obtain p where p: "bench_player gw_df bench_ids k = Some p" by auto
  from bench_player_SomeD [OF p] obtain pid tl where
    look: "map_of bench_ids k = Some pid" "rows_of gw_df pid = p # tl" by blast
  from Cons.prems have sorted_rest: "sorted_wrt (<) rest"
    and later: "\<forall>j \<in> set rest. k < j"
    and have_rest: "\<forall>j \<in> set rest. bench_player gw_df bench_ids j \<noteq> None" by auto
  show ?case
  proof (cases "length active \<ge> 11")
    case True
    have "bench_loop gw_df bench_ids (k # rest) active subs = Inr (active, subs)"
      using True by simp
    moreover have "\<forall>j \<in> set (k # rest). \<not> slot_commits gw_df bench_ids active [] j"
      using True by (auto simp: slot_commits_def split: option.splits)
    ultimately show ?thesis by (intro exI [of _ "[]"]) simp
  next
    case short: False
    let ?commit = "minutes p \<noteq> 0 \<and> validate_formation (active @ [p]) = None"
    show ?thesis
    proof (cases ?commit)
      case False
      from Cons.IH [OF sorted_rest have_rest, of active subs] obtain cs where
        cs: "bench_loop gw_df bench_ids rest active subs
               = Inr (active @ slot_rows gw_df bench_ids cs, subs @ slot_subs gw_df bench_ids cs)"
            "sorted_wrt (<) cs" "set cs \<subseteq> set rest"
            "\<forall>j \<in> set rest. j \<in> set cs \<longleftrightarrow> slot_commits gw_df bench_ids active cs j"
        by blast
      from cs(3) later have after: "\<forall>j \<in> set cs. k < j" by auto
      then have nobefore: "filter (\<lambda>j. j < k) cs = []" by (auto simp: filter_empty_conv)
      have run: "bench_loop gw_df bench_ids (k # rest) active subs
               = Inr (active @ slot_rows gw_df bench_ids cs, subs @ slot_subs gw_df bench_ids cs)"
        using short False look cs(1) by (auto simp: Let_def)
      have "k \<notin> set cs" using after by auto
      moreover have "\<not> slot_commits gw_df bench_ids active cs k"
        using False p nobefore by (auto simp: slot_commits_def Let_def)
      ultimately show ?thesis using run cs by (intro exI [of _ cs]) auto
    next
      case True
      let ?s = "\<lparr>sub_player_id = player_id p, sub_name = name p, sub_position = position p,
                 sub_bench_pos = k, sub_points = points p\<rparr>"
      from Cons.IH [OF sorted_rest have_rest, of "active @ [p]" "subs @ [?s]"] obtain cs where
        cs: "bench_loop gw_df bench_ids rest (active @ [p]) (subs @ [?s])
               = Inr ((active @ [p]) @ slot_rows gw_df bench_ids cs,
                      (subs @ [?s]) @ slot_subs gw_df bench_ids cs)"
            "sorted_wrt (<) cs" "set cs \<subseteq> set rest"
            "\<forall>j \<in> set rest. j \<in> set cs \<longleftrightarrow> slot_commits gw_df bench_ids (active @ [p]) cs j"
        by blast
      from cs(3) later have after: "\<forall>j \<in> set cs. k < j" by auto
      then have nobefore: "filter (\<lambda>j. j < k) (k # cs) = []" by (auto simp: filter_empty_conv)
      have run: "bench_loop gw_df bench_ids (k # rest) active subs
               = Inr (active @ slot_rows gw_df bench_ids (k # cs),
                      subs @ slot_subs gw_df bench_ids (k # cs))"
        using short True look cs(1) by (simp add: Let_def slot_rows_Cons [OF p] slot_subs_Cons [OF p])
      have sorted: "sorted_wrt (<) (k # cs)" using cs(2) after by simp
      have sub: "set (k # cs) \<subseteq> set (k # rest)" using cs(3) by auto
      have here: "slot_commits gw_df bench_ids active (k # cs) k"
        using True short p nobefore by (simp add: slot_commits_def Let_def)
      have there: "slot_commits gw_df bench_ids active (k # cs) j
                     \<longleftrightarrow> slot_commits gw_df bench_ids (active @ [p]) cs j" if "j \<in> set rest" for j
      proof -
        from that later have "k < j" by auto
        then have "slot_rows gw_df bench_ids (filter (\<lambda>i. i < j) (k # cs))
                     = p # slot_rows gw_df bench_ids (filter (\<lambda>i. i < j) cs)"
          by (simp add: slot_rows_Cons [OF p])
        then show ?thesis by (simp add: slot_commits_def split: option.splits)
      qed
      have "\<forall>j \<in> set (k # rest). j \<in> set (k # cs) \<longleftrightarrow> slot_commits gw_df bench_ids active (k # cs) j"
      proof
        fix j assume j: "j \<in> set (k # rest)"
        show "j \<in> set (k # cs) \<longleftrightarrow> slot_commits gw_df bench_ids active (k # cs) j"
        proof (cases "j = k")
          case True
          with here show ?thesis by simp
        next
          case False
          with j have jr: "j \<in> set rest" by simp
          with cs(4) there [OF jr] False show ?thesis by simp
        qed
      qed
      with run sorted sub show ?thesis by (intro exI [of _ "k # cs"]) simp
    qed
  qed
qed

lemma apply_captaincy_returns:
  "\<exists>total_points d. apply_captaincy active subs captain_id vice_id = Inr (total_points, active, d)
      \<and> substitutions d = subs"
proof (cases "captain_id \<in> set (map player_id active)")
  case True
  from first_points_member [OF True] show ?thesis
    using True by (auto simp: apply_captaincy_def Let_def)
next
  case False
  show ?thesis
  proof (cases "vice_id \<in> set (map player_id active)")
    case True
    from first_points_member [OF True] show ?thesis
      using False True by (auto simp: apply_captaincy_def Let_def)
  next
    case nv: False
    with False show ?thesis by (auto simp: apply_captaincy_def Let_def)
  qed
qed

text \<open>
  Claim C5. Take a run in which some starter played and each of the four bench slots
  holds a player of the table. Then the scorer returns, and there is a list \<open>cs\<close> of
  committed slots, strictly increasing and within 1 to 4, such that the final active set
  is the playing starters followed by the players of \<open>cs\<close> in that order, the recorded
  substitutions are those of \<open>cs\<close> in that order, each with its slot, player id and
  points, and a slot is in \<open>cs\<close> exactly when, with the commits of the earlier slots
  only, fewer than 11 players were active, its player had minutes other than 0, and the
  set with the player added passed the formation check.
\<close>

theorem bench_slots_in_fixed_order:
  fixes gw_df :: "player list" and starter_ids :: "int list"
  defines "playing \<equiv> filter (\<lambda>r. minutes r > 0) (isin gw_df starter_ids)"
  assumes "playing \<noteq> []"
    and "\<forall>k \<in> set [1, 2, 3, 4]. bench_player gw_df bench_ids k \<noteq> None"
  shows "\<exists>cs total_points d.
           calculate_gameweek_points gw_df starter_ids bench_ids captain_id vice_id
             = Inr (total_points, playing @ slot_rows gw_df bench_ids cs, d)
           \<and> substitutions d = slot_subs gw_df bench_ids cs
           \<and> sorted_wrt (<) cs \<and> set cs \<subseteq> {1, 2, 3, 4}
           \<and> (\<forall>k \<in> set [1, 2, 3, 4]. k \<in> set cs \<longleftrightarrow> slot_commits gw_df bench_ids playing cs k)"
proof -
  have "sorted_wrt (<) [1, 2, 3, 4 :: int]" by simp
  from bench_loop_characterised [OF this assms(3), of playing "[]"] obtain cs where
    cs: "bench_loop gw_df bench_ids [1, 2, 3, 4] playing []
           = Inr (playing @ slot_rows gw_df bench_ids cs, slot_subs gw_df bench_ids cs)"
        "sorted_wrt (<) cs" "set cs \<subseteq> set [1, 2, 3, 4]"
        "\<forall>k \<in> set [1, 2, 3, 4]. k \<in> set cs \<longleftrightarrow> slot_commits gw_df bench_ids playing cs k"
    by auto
  from apply_captaincy_returns
    [of "playing @ slot_rows gw_df bench_ids cs" "slot_subs gw_df bench_ids cs" captain_id vice_id]
  obtain total_points d where
    d: "apply_captaincy (playing @ slot_rows gw_df bench_ids cs) (slot_subs gw_df bench_ids cs)
          captain_id vice_id = Inr (total_points, playing @ slot_rows gw_df bench_ids cs, d)"
       "substitutions d = slot_subs gw_df bench_ids cs"
    by blast
  have "calculate_gameweek_points gw_df starter_ids bench_ids captain_id vice_id
          = Inr (total_points, playing @ slot_rows gw_df bench_ids cs, d)"
    using assms(2) cs(1) d(1) by (simp add: calculate_gameweek_points_def playing_def)
  with d(2) cs(2,3,4) show ?thesis by (intro exI [of _ cs] exI [of _ total_points] exI [of _ d]) simp
qed

lemma ex_playing:
  "filter (\<lambda>r. minutes r > 0) (isin ex_gw ex_starters) = ex_playing_starters"
  by (simp add: ex_gw_def ex_starters_def isin_def ex_playing_starters_def)

lemma ex_bench_players:
  "bench_player ex_gw ex_bench 1 = Some (ex_row 2 ''GK'' ''B'' 40 3 90)"
  "bench_player ex_gw ex_bench 2 = Some (ex_row 7 ''DEF'' ''B'' 40 0 0)"
  "bench_player ex_gw ex_bench 3 = Some (ex_row 12 ''MID'' ''B'' 50 3 90)"
  "bench_player ex_gw ex_bench 4 = Some (ex_row 15 ''FWD'' ''E'' 45 1 90)"
  by (simp_all add: bench_player_def ex_bench_def ex_gw_def rows_of_def)

text \<open>
  On the example table ten starters played. Slot 1 holds a goalkeeper who played, and a
  second goalkeeper is illegal; slot 2 holds a player with 0 minutes; slot 3 is
  committed and brings the active set to 11, so slot 4 is not committed.
\<close>

theorem bench_slots_in_fixed_order_witness:
  "filter (\<lambda>r. minutes r > 0) (isin ex_gw ex_starters) \<noteq> []
   \<and> bench_player ex_gw ex_bench 1 = Some (ex_row 2 ''GK'' ''B'' 40 3 90)
   \<and> bench_player ex_gw ex_bench 2 = Some (ex_row 7 ''DEF'' ''B'' 40 0 0)
   \<and> bench_player ex_gw ex_bench 3 = Some (ex_row 12 ''MID'' ''B'' 50 3 90)
   \<and> bench_player ex_gw ex_bench 4 = Some (ex_row 15 ''FWD'' ''E'' 45 1 90)
   \<and> (\<exists>cs total_points d.
         calculate_gameweek_points ex_gw ex_starters ex_bench 8 9
           = Inr (total_points,
                  filter (\<lambda>r. minutes r > 0) (isin ex_gw ex_starters) @ slot_rows ex_gw ex_bench cs, d)
         \<and> substitutions d = slot_subs ex_gw ex_bench cs
         \<and> sorted_wrt (<) cs \<and> set cs \<subseteq> {1, 2, 3, 4}
         \<and> (\<forall>k \<in> set [1, 2, 3, 4]. k \<in> set cs \<longleftrightarrow>
               slot_commits ex_gw ex_bench (filter (\<lambda>r. minutes r > 0) (isin ex_gw ex_starters)) cs k))
   \<and> calculate_gameweek_points ex_gw ex_starters ex_bench 8 9
        = Inr (41, ex_final_active, Details ex_subs False True (Some Vice) 5 36 11)
   \<and> ex_final_active = ex_playing_starters @ slot_rows ex_gw ex_bench [3]
   \<and> ex_subs = slot_subs ex_gw ex_bench [3]"
proof -
  have h1: "filter (\<lambda>r. minutes r > 0) (isin ex_gw ex_starters) \<noteq> []"
    by (simp add: ex_playing ex_playing_starters_def)
  have h2: "\<forall>k \<in> set [1, 2, 3, 4]. bench_player ex_gw ex_bench k \<noteq> None"
    by (simp add: ex_bench_players)
  have e1: "ex_final_active = ex_playing_starters @ slot_rows ex_gw ex_bench [3]"
    by (simp add: slot_rows_def ex_bench_players ex_final_active_def ex_playing_starters_def)
  have e2: "ex_subs = slot_subs ex_gw ex_bench [3]"
    by (simp add: slot_subs_def ex_bench_players ex_subs_def)
  from bench_slots_in_fixed_order [OF h1 h2, of 8 9] h1 ex_bench_players ex_score e1 e2
  show ?thesis by blast
qed

text \<open>
  The claim's examples on the same table: with the captain (player 8) out and the vice
  (player 9, 5 points) active the bonus is 5; with player 13 (8 points) as captain the
  8 points are in the base points and once more in the bonus.
\<close>

theorem armband_bonus_witness:
  "calculate_gameweek_points ex_gw ex_starters ex_bench 8 9
     = Inr (41, ex_final_active, Details ex_subs False True (Some Vice) 5 36 11)
   \<and> ex_final_active \<noteq> []
   \<and> 8 \<notin> set (map player_id ex_final_active) \<and> 9 \<in> set (map player_id ex_final_active)
   \<and> (\<exists>r. find (\<lambda>r. player_id r = 9) ex_final_active = Some r \<and> points r = 5 \<and> 41 = 36 + points r)
   \<and> calculate_gameweek_points ex_gw ex_starters ex_bench 13 9
     = Inr (44, ex_final_active, Details ex_subs True True (Some Captain) 8 36 11)
   \<and> 13 \<in> set (map player_id ex_final_active)
   \<and> (\<exists>r. find (\<lambda>r. player_id r = 13) ex_final_active = Some r \<and> points r = 8 \<and> 44 = 36 + points r)"
proof -
  have ne: "ex_final_active \<noteq> []" by (simp add: ex_final_active_def)
  have m: "8 \<notin> set (map player_id ex_final_active)" "9 \<in> set (map player_id ex_final_active)"
    "13 \<in> set (map player_id ex_final_active)"
    by (simp_all add: ex_final_active_def)
  have s: "sum_list (map points ex_final_active) = 36" by (simp add: ex_final_active_def)
  from armband_bonus [OF ex_score ne] m s
  have v: "\<exists>r. find (\<lambda>r. player_id r = 9) ex_final_active = Some r \<and> points r = 5 \<and> 41 = 36 + points r"
    by auto
  from armband_bonus [OF ex_score_captain ne] m s
  have c: "\<exists>r. find (\<lambda>r. player_id r = 13) ex_final_active = Some r \<and> points r = 8 \<and> 44 = 36 + points r"
    by auto
  from ex_score ex_score_captain ne m v c show ?thesis by blast
qed

section \<open>Role assigner: bench order\<close>

lemma mset_sorted_reverse: "mset (sorted_reverse k xs) = mset xs"
  by (simp add: sorted_reverse_def)

lemma length_sorted_reverse: "length (sorted_reverse k xs) = length xs"
  by (simp add: sorted_reverse_def)

lemma sorted_reverse_descending: "sorted_wrt (\<lambda>a b. k a \<ge> k b) (sorted_reverse k xs)"
proof -
  have "sorted (map k (sort_key k (rev xs)))" by simp
  then have "sorted_wrt (\<lambda>a b. k a \<le> k b) (sort_key k (rev xs))"
    by (simp add: sorted_wrt_map)
  then show ?thesis by (simp add: sorted_reverse_def sorted_wrt_rev)
qed

lemma sorted_reverse_stable:
  "filter (\<lambda>x. k x = e) (sorted_reverse k xs) = filter (\<lambda>x. k x = e) xs"
proof -
  have "filter (\<lambda>x. k x = e) (sorted_reverse k xs)
          = rev (filter (\<lambda>x. k x = e) (sort_key k (rev xs)))"
    by (simp add: sorted_reverse_def rev_filter)
  also have "\<dots> = rev (filter (\<lambda>x. k x = e) (rev xs))"
    by (simp only: sort_key_stable)
  also have "\<dots> = filter (\<lambda>x. k x = e) xs"
    by (simp add: rev_filter)
  finally show ?thesis .
qed

lemma length_three: "length xs = 3 \<Longrightarrow> \<exists>a b c. xs = [a, b, c]"
  by (cases xs; simp; cases "tl xs"; simp; cases "tl (tl xs)"; auto)

lemma length_one: "length xs = Suc 0 \<longleftrightarrow> (\<exists>a. xs = [a])"
  by (cases xs) auto

text \<open>
  Claim C8. With every bench id in the players dict: if the bench holds exactly one
  goalkeeper and exactly three other players, the bench order is that goalkeeper
  followed by the three others, in descending order of expected points, players of
  equal expected points in the order they have in the input; if the number of
  goalkeepers in the bench is not 1, the derivation raises the error that reports that
  number. A bench id the dict does not hold makes the derivation raise KeyError.
\<close>

theorem bench_order_derivation:
  fixes players :: "int \<rightharpoonup> player" and bench_ids :: "int list"
  defines "gks \<equiv> filter (\<lambda>pid. is_gk players pid) bench_ids"
    and "outfield \<equiv> filter (\<lambda>pid. \<not> is_gk players pid) bench_ids"
  shows "((\<forall>pid \<in> set bench_ids. players pid \<noteq> None) \<and> length gks = 1 \<and> length outfield = 3 \<longrightarrow>
            (\<exists>gk o2 o3 o4.
               assign_bench_positions players bench_ids = Inr [gk, o2, o3, o4]
               \<and> gks = [gk]
               \<and> mset [o2, o3, o4] = mset outfield
               \<and> ep_of players o2 \<ge> ep_of players o3 \<and> ep_of players o3 \<ge> ep_of players o4
               \<and> (\<forall>e. filter (\<lambda>pid. ep_of players pid = e) [o2, o3, o4]
                        = filter (\<lambda>pid. ep_of players pid = e) outfield)))
         \<and> ((\<forall>pid \<in> set bench_ids. players pid \<noteq> None) \<and> length gks \<noteq> 1 \<longrightarrow>
              assign_bench_positions players bench_ids = Inl (BenchGKCount (length gks)))
         \<and> ((\<exists>pid \<in> set bench_ids. players pid = None) \<longrightarrow>
              assign_bench_positions players bench_ids = Inl KeyError)"
proof (intro conjI impI)
  assume a: "(\<forall>pid \<in> set bench_ids. players pid \<noteq> None) \<and> length gks = 1 \<and> length outfield = 3"
  then obtain gk where gk: "gks = [gk]" by (auto simp: length_one)
  let ?sorted = "sorted_reverse (ep_of players) outfield"
  from a have "length ?sorted = 3" by (simp add: length_sorted_reverse)
  then obtain o2 o3 o4 where os: "?sorted = [o2, o3, o4]" using length_three by blast
  have run: "assign_bench_positions players bench_ids = Inr [gk, o2, o3, o4]"
    using a gk os by (simp add: assign_bench_positions_def gks_def outfield_def)
  have perm: "mset [o2, o3, o4] = mset outfield"
    using mset_sorted_reverse [of "ep_of players" outfield] os by simp
  have desc: "ep_of players o2 \<ge> ep_of players o3 \<and> ep_of players o3 \<ge> ep_of players o4"
    using sorted_reverse_descending [of "ep_of players" outfield] os by simp
  have stable: "\<forall>e. filter (\<lambda>pid. ep_of players pid = e) [o2, o3, o4]
                     = filter (\<lambda>pid. ep_of players pid = e) outfield"
    using sorted_reverse_stable [of "ep_of players" _ outfield] os by simp
  from run gk perm desc stable
  show "\<exists>gk o2 o3 o4.
          assign_bench_positions players bench_ids = Inr [gk, o2, o3, o4]
          \<and> gks = [gk]
          \<and> mset [o2, o3, o4] = mset outfield
          \<and> ep_of players o2 \<ge> ep_of players o3 \<and> ep_of players o3 \<ge> ep_of players o4
          \<and> (\<forall>e. filter (\<lambda>pid. ep_of players pid = e) [o2, o3, o4]
                   = filter (\<lambda>pid. ep_of players pid = e) outfield)"
    by blast
next
  assume a: "(\<forall>pid \<in> set bench_ids. players pid \<noteq> None) \<and> length gks \<noteq> 1"
  then have "\<not> (\<exists>gk. gks = [gk])" by auto
  then show "assign_bench_positions players bench_ids = Inl (BenchGKCount (length gks))"
    using a by (auto simp: assign_bench_positions_def gks_def Let_def split: list.splits)
next
  assume "\<exists>pid \<in> set bench_ids. players pid = None"
  then show "assign_bench_positions players bench_ids = Inl KeyError"
    by (simp add: assign_bench_positions_def)
qed

lemma ex_players_lookup:
  "ex_players 2 = Some (ex_ep_row 2 ''GK'' 3.5)" "ex_players 7 = Some (ex_ep_row 7 ''DEF'' 1.5)"
  "ex_players 12 = Some (ex_ep_row 12 ''MID'' 3)" "ex_players 15 = Some (ex_ep_row 15 ''FWD'' 3)"
  by (simp_all add: ex_players_def)

lemma ex_players_gk:
  "is_gk ex_players 2" "\<not> is_gk ex_players 7" "\<not> is_gk ex_players 12" "\<not> is_gk ex_players 15"
  by (simp_all add: is_gk_def ex_players_lookup ex_ep_row_def)

lemma ex_players_ep:
  "ep_of ex_players 7 = 1.5" "ep_of ex_players 12 = 3" "ep_of ex_players 15 = 3"
  by (simp_all add: ep_of_def ex_players_lookup ex_ep_row_def)

text \<open>
  Players 12 and 15 tie on expected points and keep their input order; with two
  goalkeepers on the bench the derivation raises.
\<close>

theorem bench_order_derivation_witness:
  "filter (\<lambda>pid. is_gk ex_players pid) [7, 12, 2, 15] = [2]
   \<and> filter (\<lambda>pid. \<not> is_gk ex_players pid) [7, 12, 2, 15] = [7, 12, 15]
   \<and> (\<exists>gk o2 o3 o4.
         assign_bench_positions ex_players [7, 12, 2, 15] = Inr [gk, o2, o3, o4]
         \<and> mset [o2, o3, o4] = mset [7, 12, 15]
         \<and> ep_of ex_players o2 \<ge> ep_of ex_players o3 \<and> ep_of ex_players o3 \<ge> ep_of ex_players o4)
   \<and> assign_bench_positions ex_players [7, 12, 2, 15] = Inr [2, 12, 15, 7]
   \<and> assign_bench_positions ex_players [7, 2, 2, 15] = Inl (BenchGKCount 2)
   \<and> assign_bench_positions ex_players [7, 12, 2, 99] = Inl KeyError"
proof -
  have k: "\<forall>pid \<in> set [7, 12, 2, 15]. ex_players pid \<noteq> None" "\<forall>pid \<in> set [7, 2, 2, 15]. ex_players pid \<noteq> None"
    by (simp_all add: ex_players_lookup)
  have m: "\<exists>pid \<in> set [7, 12, 2, 99]. ex_players pid = None" by (simp add: ex_players_def)
  have g: "filter (\<lambda>pid. is_gk ex_players pid) [7, 12, 2, 15] = [2]"
    "filter (\<lambda>pid. \<not> is_gk ex_players pid) [7, 12, 2, 15] = [7, 12, 15]"
    "filter (\<lambda>pid. is_gk ex_players pid) [7, 2, 2, 15] = [2, 2]"
    by (simp_all add: ex_players_gk)
  have run: "assign_bench_positions ex_players [7, 12, 2, 15] = Inr [2, 12, 15, 7]"
    using k(1) by (simp add: assign_bench_positions_def ex_players_gk sorted_reverse_def ex_players_ep)
  from bench_order_derivation [where players = ex_players and bench_ids = "[7, 12, 2, 15]"] k(1) g
  have one: "\<exists>gk o2 o3 o4.
         assign_bench_positions ex_players [7, 12, 2, 15] = Inr [gk, o2, o3, o4]
         \<and> mset [o2, o3, o4] = mset [7, 12, 15]
         \<and> ep_of ex_players o2 \<ge> ep_of ex_players o3 \<and> ep_of ex_players o3 \<ge> ep_of ex_players o4"
    by (simp del: mset.simps) blast
  from bench_order_derivation [where players = ex_players and bench_ids = "[7, 2, 2, 15]"] k(2) g
  have two: "assign_bench_positions ex_players [7, 2, 2, 15] = Inl (BenchGKCount 2)" by simp
  from bench_order_derivation [where players = ex_players and bench_ids = "[7, 12, 2, 99]"] m
  have three: "assign_bench_positions ex_players [7, 12, 2, 99] = Inl KeyError" by blast
  from g one run two three show ?thesis by blast
qed

section \<open>Team validation: squads that do not resolve to fifteen players\<close>

lemma isin_length_card:
  assumes "distinct (map player_id gw_df)"
  shows "length (isin gw_df ids) = card (set ids \<inter> player_id ` set gw_df)"
proof -
  have d: "distinct (map player_id (isin gw_df ids))"
    using assms by (simp add: isin_def distinct_map_filter)
  have "set (map player_id (isin gw_df ids)) = set ids \<inter> player_id ` set gw_df"
    by (auto simp: isin_def)
  with distinct_card [OF d] show ?thesis by simp
qed

lemma short_squad_resolution:
  assumes "distinct (map player_id gw_df)"
    and "\<not> distinct squad_ids \<or> (\<exists>pid \<in> set squad_ids. pid \<notin> player_id ` set gw_df)"
  shows "length (isin gw_df squad_ids) < length squad_ids"
proof -
  have fin: "finite (set squad_ids)" by simp
  have "card (set squad_ids \<inter> player_id ` set gw_df) < length squad_ids"
    using assms(2)
  proof
    assume "\<not> distinct squad_ids"
    then have "card (set squad_ids) \<noteq> length squad_ids" using card_distinct by blast
    with card_length [of squad_ids] have "card (set squad_ids) < length squad_ids" by simp
    moreover have "card (set squad_ids \<inter> player_id ` set gw_df) \<le> card (set squad_ids)"
      by (rule card_mono) auto
    ultimately show ?thesis by simp
  next
    assume "\<exists>pid \<in> set squad_ids. pid \<notin> player_id ` set gw_df"
    then obtain pid where pid: "pid \<in> set squad_ids" "pid \<notin> player_id ` set gw_df" by blast
    then have "set squad_ids \<inter> player_id ` set gw_df \<subset> set squad_ids" by blast
    then have "card (set squad_ids \<inter> player_id ` set gw_df) < card (set squad_ids)"
      by (rule psubset_card_mono [OF fin])
    with card_length [of squad_ids] show ?thesis by simp
  qed
  with isin_length_card [OF assms(1)] show ?thesis by simp
qed

lemma squad_composition_None:
  "squad_composition squad_df expected = None \<longleftrightarrow>
     position_count squad_df ''GK'' = 2 \<and> position_count squad_df ''DEF'' = 5
     \<and> position_count squad_df ''MID'' = 5 \<and> position_count squad_df ''FWD'' = 3"
  by (simp add: expected_def Let_def)

lemma squad_composition_reason:
  "squad_composition squad_df quota = Some r \<Longrightarrow> \<exists>cnt pos actual. r = SquadComposition cnt pos actual"
  by (induction squad_df quota rule: squad_composition.induct) (auto simp: Let_def split: if_splits)

text \<open>
  Claim C10. On a table with one row per player id, a squad list of length 15 that
  repeats an id or names an id without a row resolves to fewer than 15 rows, and team
  validation fails: it returns the reason of the squad position quota.
\<close>

theorem squad_with_repeated_or_unknown_id_is_rejected:
  assumes "distinct (map player_id gw_df)"
    and "length squad_ids = 15"
    and "\<not> distinct squad_ids \<or> (\<exists>pid \<in> set squad_ids. pid \<notin> player_id ` set gw_df)"
  shows "length (isin gw_df squad_ids) < 15
         \<and> (\<exists>cnt pos actual.
               validate_team gw_df squad_ids starter_ids bench_ids captain_id vice_id
                 = Inr (Some (SquadComposition cnt pos actual)))"
proof -
  from short_squad_resolution [OF assms(1,3)] assms(2)
  have short: "length (isin gw_df squad_ids) < 15" by simp
  have "squad_composition (isin gw_df squad_ids) expected \<noteq> None"
  proof
    assume "squad_composition (isin gw_df squad_ids) expected = None"
    then have "position_count (isin gw_df squad_ids) ''GK'' + position_count (isin gw_df squad_ids) ''DEF''
                 + position_count (isin gw_df squad_ids) ''MID'' + position_count (isin gw_df squad_ids) ''FWD'' = 15"
      by (simp add: squad_composition_None)
    with position_count_sum_le [of "isin gw_df squad_ids"] short show False by simp
  qed
  then obtain r where r: "squad_composition (isin gw_df squad_ids) expected = Some r" by blast
  from squad_composition_reason [OF r] obtain cnt pos actual where
    "r = SquadComposition cnt pos actual" by blast
  with r assms(2) have "validate_team gw_df squad_ids starter_ids bench_ids captain_id vice_id
                 = Inr (Some (SquadComposition cnt pos actual))"
    by (simp add: validate_team_def)
  with short show ?thesis by blast
qed

lemma ex_gw_distinct: "distinct (map player_id ex_gw)"
  by (simp add: ex_gw_def)

theorem squad_with_repeated_or_unknown_id_is_rejected_witness:
  "distinct (map player_id ex_gw)
   \<and> length ex_squad_duplicate = 15 \<and> \<not> distinct ex_squad_duplicate
   \<and> length (isin ex_gw ex_squad_duplicate) < 15
   \<and> validate_team ex_gw ex_squad_duplicate ex_starters ex_bench 8 9
        = Inr (Some (SquadComposition 2 ''GK'' 1))
   \<and> length ex_squad_unknown = 15 \<and> 99 \<in> set ex_squad_unknown \<and> 99 \<notin> player_id ` set ex_gw
   \<and> length (isin ex_gw ex_squad_unknown) < 15
   \<and> validate_team ex_gw ex_squad_unknown ex_starters ex_bench 8 9
        = Inr (Some (SquadComposition 3 ''FWD'' 2))"
proof -
  have l: "length ex_squad_duplicate = 15" "length ex_squad_unknown = 15"
    by (simp_all add: ex_squad_duplicate_def ex_squad_unknown_def)
  have nd: "\<not> distinct ex_squad_duplicate" by (simp add: ex_squad_duplicate_def)
  have u: "99 \<in> set ex_squad_unknown" "99 \<notin> player_id ` set ex_gw"
    by (simp_all add: ex_squad_unknown_def ex_gw_def)
  have v1: "validate_team ex_gw ex_squad_duplicate ex_starters ex_bench 8 9
        = Inr (Some (SquadComposition 2 ''GK'' 1))"
    by (simp add: validate_team_def ex_gw_def ex_squad_duplicate_def isin_def expected_def
          position_count_def)
  have v2: "validate_team ex_gw ex_squad_unknown ex_starters ex_bench 8 9
        = Inr (Some (SquadComposition 3 ''FWD'' 2))"
    by (simp add: validate_team_def ex_gw_def ex_squad_unknown_def isin_def expected_def
          position_count_def)
  from nd have h1: "\<not> distinct ex_squad_duplicate \<or> (\<exists>pid \<in> set ex_squad_duplicate. pid \<notin> player_id ` set ex_gw)"
    by blast
  from u have h2: "\<not> distinct ex_squad_unknown \<or> (\<exists>pid \<in> set ex_squad_unknown. pid \<notin> player_id ` set ex_gw)"
    by blast
  from squad_with_repeated_or_unknown_id_is_rejected [OF ex_gw_distinct l(1) h1]
  have s1: "length (isin ex_gw ex_squad_duplicate) < 15" by blast
  from squad_with_repeated_or_unknown_id_is_rejected [OF ex_gw_distinct l(2) h2]
  have s2: "length (isin ex_gw ex_squad_unknown) < 15" by blast
  from ex_gw_distinct l nd u v1 v2 s1 s2 show ?thesis by blast
qed

section \<open>Team validation: first failing check\<close>

lemma bench_keys_sorted:
  "sort (map fst bench_ids) = [1, 2, 3, 4] \<longleftrightarrow>
     distinct (map fst bench_ids) \<and> set (map fst bench_ids) = {1, 2, 3, 4}"
  for bench_ids :: bench
proof
  assume s: "sort (map fst bench_ids) = [1, 2, 3, 4]"
  have "mset (map fst bench_ids) = mset (sort (map fst bench_ids))" by simp
  with s have m: "mset (map fst bench_ids) = mset [1, 2, 3, 4]" by simp
  from mset_eq_setD [OF m] have "set (map fst bench_ids) = {1, 2, 3, 4}" by simp
  moreover from mset_eq_imp_distinct_iff [OF m] have "distinct (map fst bench_ids)" by simp
  ultimately show "distinct (map fst bench_ids) \<and> set (map fst bench_ids) = {1, 2, 3, 4}" by simp
next
  assume a: "distinct (map fst bench_ids) \<and> set (map fst bench_ids) = {1, 2, 3, 4}"
  have "sorted_list_of_set (set (map fst bench_ids)) = sort (remdups (map fst bench_ids))"
    by (rule sorted_list_of_set_sort_remdups)
  with a have l: "sort (map fst bench_ids) = sorted_list_of_set (set (map fst bench_ids))"
    by (simp only: distinct_remdups_id)
  have "sorted_list_of_set (set [1, 2, 3, 4 :: int]) = sort (remdups [1, 2, 3, 4])"
    by (rule sorted_list_of_set_sort_remdups)
  then have r: "sorted_list_of_set (set [1, 2, 3, 4 :: int]) = [1, 2, 3, 4]" by simp
  from a have "set (map fst bench_ids) = set [1, 2, 3, 4 :: int]" by simp
  with l r show "sort (map fst bench_ids) = [1, 2, 3, 4]" by (simp only:)
qed

lemma bench_keys_length:
  "distinct (map fst bench_ids) \<and> set (map fst bench_ids) = {1, 2, 3, 4} \<Longrightarrow> length bench_ids = 4"
  for bench_ids :: bench
  using distinct_card [of "map fst bench_ids"] by simp

lemma bench_key_lookup:
  "set (map fst bench_ids) = {1, 2, 3, 4} \<Longrightarrow> k \<in> {1, 2, 3, 4} \<Longrightarrow> \<exists>pid. map_of bench_ids k = Some pid"
  for bench_ids :: bench
  using map_of_eq_None_iff [of bench_ids k] by auto

lemma validate_outfield_bench_result:
  assumes "\<forall>k \<in> set ks. map_of bench_ids k \<noteq> None" and "1 \<notin> set ks"
  shows "\<exists>res. validate_outfield_bench gw_df bench_ids ks = Inr res
           \<and> (res = None \<longleftrightarrow>
                list_all (\<lambda>k. \<exists>p. bench_player gw_df bench_ids k = Some p \<and> position p \<noteq> ''GK'') ks)
           \<and> (\<forall>r. res = Some r \<longrightarrow> check_of r = 8)"
  using assms
proof (induction ks)
  case Nil
  show ?case by simp
next
  case (Cons k ks)
  then obtain pid where pid: "map_of bench_ids k = Some pid" by auto
  from Cons.prems have k1: "k \<noteq> 1" by auto
  show ?case
  proof (cases "rows_of gw_df pid")
    case Nil
    with pid k1 show ?thesis by (simp add: bench_player_def)
  next
    case (Cons row rest)
    show ?thesis
    proof (cases "position row = ''GK''")
      case True
      with pid Cons show ?thesis by (simp add: bench_player_def)
    next
      case False
      from Cons.IH Cons.prems obtain res where
        "validate_outfield_bench gw_df bench_ids ks = Inr res"
        "res = None \<longleftrightarrow>
           list_all (\<lambda>k. \<exists>p. bench_player gw_df bench_ids k = Some p \<and> position p \<noteq> ''GK'') ks"
        "\<forall>r. res = Some r \<longrightarrow> check_of r = 8"
        by auto
      with pid Cons False show ?thesis by (simp add: bench_player_def)
    qed
  qed
qed

lemma validate_starters_result:
  "(validate_starters gw_df starter_ids = None \<longleftrightarrow>
      length starter_ids = 11
      \<and> position_count (isin gw_df starter_ids) ''GK'' = 1
      \<and> position_count (isin gw_df starter_ids) ''DEF'' \<in> {3..5}
      \<and> position_count (isin gw_df starter_ids) ''MID'' \<in> {2..5}
      \<and> position_count (isin gw_df starter_ids) ''FWD'' \<in> {1..3})
   \<and> (\<forall>r. validate_starters gw_df starter_ids = Some r \<longrightarrow>
         check_of r = (if length starter_ids = 11 then 5 else 4))"
  by (auto simp: validate_starters_def Let_def)

lemma validate_captaincy_result:
  "map_option check_of (validate_captaincy starter_ids captain_id vice_id)
     = first_failure_from 9
         [captain_id \<noteq> vice_id, captain_id \<in> set starter_ids, vice_id \<in> set starter_ids]"
  by (simp add: validate_captaincy_def)

lemma over_limit_empty:
  "over_limit squad_df = [] \<longleftrightarrow> list_all (\<lambda>club. team_count squad_df club \<le> 3) (map team squad_df)"
  by (auto simp: over_limit_def filter_empty_conv list_all_iff)

lemma validate_bench_result:
  "\<exists>res. validate_bench gw_df starter_ids bench_ids captain_id vice_id = Inr res
     \<and> map_option check_of res
         = first_failure_from 6
             [distinct (map fst bench_ids) \<and> set (map fst bench_ids) = {1, 2, 3, 4},
              (\<exists>p. bench_player gw_df bench_ids 1 = Some p \<and> position p = ''GK''),
              list_all (\<lambda>k. \<exists>p. bench_player gw_df bench_ids k = Some p \<and> position p \<noteq> ''GK'')
                [2, 3, 4],
              captain_id \<noteq> vice_id,
              captain_id \<in> set starter_ids,
              vice_id \<in> set starter_ids]"
proof (cases "distinct (map fst bench_ids) \<and> set (map fst bench_ids) = {1, 2, 3, 4}")
  case False
  then have "length bench_ids \<noteq> 4 \<or> sort (map fst bench_ids) \<noteq> [1, 2, 3, 4]"
    using bench_keys_sorted [of bench_ids] by blast
  with False show ?thesis by (auto simp: validate_bench_def)
next
  case keys: True
  then have len: "length bench_ids = 4" and srt: "sort (map fst bench_ids) = [1, 2, 3, 4]"
    using bench_keys_length [of bench_ids] bench_keys_sorted [of bench_ids] by blast+
  from keys bench_key_lookup [of bench_ids 1] obtain pos1_id where
    p1: "map_of bench_ids 1 = Some pos1_id" by auto
  have "\<forall>k \<in> set [2, 3, 4]. map_of bench_ids k \<noteq> None"
    using keys bench_key_lookup [of bench_ids] by auto
  from validate_outfield_bench_result [OF this, of gw_df] obtain ores where
    o: "validate_outfield_bench gw_df bench_ids [2, 3, 4] = Inr ores"
       "ores = None \<longleftrightarrow>
          list_all (\<lambda>k. \<exists>p. bench_player gw_df bench_ids k = Some p \<and> position p \<noteq> ''GK'') [2, 3, 4]"
       "\<forall>r. ores = Some r \<longrightarrow> check_of r = 8"
    by auto
  show ?thesis
  proof (cases "rows_of gw_df pos1_id")
    case Nil
    with keys len srt p1 show ?thesis by (simp add: validate_bench_def bench_player_def)
  next
    case (Cons pos1_player rest)
    show ?thesis
    proof (cases "position pos1_player = ''GK''")
      case False
      with keys len srt p1 Cons show ?thesis by (simp add: validate_bench_def bench_player_def)
    next
      case gk: True
      have c7: "\<exists>p. bench_player gw_df bench_ids 1 = Some p \<and> position p = ''GK''"
        using p1 Cons gk by (simp add: bench_player_def)
      show ?thesis
      proof (cases ores)
        case None
        with o(2) have c8: "list_all (\<lambda>k. \<exists>p. bench_player gw_df bench_ids k = Some p \<and> position p \<noteq> ''GK'') [2, 3, 4]"
          by simp
        have "validate_bench gw_df starter_ids bench_ids captain_id vice_id
                = Inr (validate_captaincy starter_ids captain_id vice_id)"
          using len srt p1 Cons gk o(1) None by (simp add: validate_bench_def)
        with keys c7 c8 validate_captaincy_result [of starter_ids captain_id vice_id]
        show ?thesis by simp
      next
        case (Some r)
        with o(2) have c8: "\<not> list_all (\<lambda>k. \<exists>p. bench_player gw_df bench_ids k = Some p \<and> position p \<noteq> ''GK'') [2, 3, 4]"
          by simp
        from Some o(3) have r8: "check_of r = 8" by simp
        have "validate_bench gw_df starter_ids bench_ids captain_id vice_id = Inr (Some r)"
          using len srt p1 Cons gk o(1) Some by (simp add: validate_bench_def)
        with keys c7 c8 r8 show ?thesis by simp
      qed
    qed
  qed
qed

lemma first_failure_five:
  "first_failure (True # True # True # True # True # bs) = first_failure_from 6 bs"
  by (simp add: first_failure_def eval_nat_numeral)

text \<open>
  Claim C6. Team validation always returns, and what it returns is decided by the first
  of the eleven checks, in the specification's order, that does not hold: no reason when
  all hold, and otherwise one reason, which belongs to that first failing check.
\<close>

theorem validate_team_first_failing_check:
  "\<exists>res. validate_team gw_df squad_ids starter_ids bench_ids captain_id vice_id = Inr res
     \<and> map_option check_of res
         = first_failure (spec_checks gw_df squad_ids starter_ids bench_ids captain_id vice_id)"
proof (cases "length squad_ids = 15")
  case False
  then show ?thesis by (simp add: validate_team_def spec_checks_def first_failure_def Let_def)
next
  case c1: True
  let ?squad = "isin gw_df squad_ids"
  show ?thesis
  proof (cases "squad_composition ?squad expected")
    case (Some r)
    then have c2: "map (position_count ?squad) [''GK'', ''DEF'', ''MID'', ''FWD''] \<noteq> [2, 5, 5, 3]"
      using squad_composition_None [of ?squad] by auto
    from squad_composition_reason [OF Some] have "check_of r = 2" by auto
    with c1 c2 Some show ?thesis
      by (simp add: validate_team_def spec_checks_def first_failure_def Let_def)
  next
    case None
    then have c2: "map (position_count ?squad) [''GK'', ''DEF'', ''MID'', ''FWD''] = [2, 5, 5, 3]"
      using squad_composition_None [of ?squad] by auto
    show ?thesis
    proof (cases "over_limit ?squad = []")
      case False
      then have c3: "\<not> list_all (\<lambda>club. team_count ?squad club \<le> 3) (map team ?squad)"
        by (simp add: over_limit_empty)
      from c1 c2 c3 None False show ?thesis
        by (simp add: validate_team_def spec_checks_def first_failure_def Let_def)
    next
      case True
      then have c3: "list_all (\<lambda>club. team_count ?squad club \<le> 3) (map team ?squad)"
        by (simp add: over_limit_empty)
      show ?thesis
      proof (cases "validate_starters gw_df starter_ids")
        case (Some r)
        with validate_starters_result [of gw_df starter_ids]
        have r: "check_of r = (if length starter_ids = 11 then 5 else 4)"
          and f: "\<not> (length starter_ids = 11
                \<and> position_count (isin gw_df starter_ids) ''GK'' = 1
                \<and> position_count (isin gw_df starter_ids) ''DEF'' \<in> {3..5}
                \<and> position_count (isin gw_df starter_ids) ''MID'' \<in> {2..5}
                \<and> position_count (isin gw_df starter_ids) ''FWD'' \<in> {1..3})"
          by auto
        have v: "validate_team gw_df squad_ids starter_ids bench_ids captain_id vice_id = Inr (Some r)"
          using c1 None True Some by (simp add: validate_team_def)
        show ?thesis
        proof (cases "length starter_ids = 11")
          case False
          with v r c1 c2 c3 show ?thesis
            by (simp add: spec_checks_def first_failure_def Let_def)
        next
          case True
          with v r f c1 c2 c3 show ?thesis
            by (simp add: spec_checks_def first_failure_def Let_def)
        qed
      next
        case sNone: None
        with validate_starters_result [of gw_df starter_ids]
        have c45: "length starter_ids = 11"
          "position_count (isin gw_df starter_ids) ''GK'' = 1
                \<and> position_count (isin gw_df starter_ids) ''DEF'' \<in> {3..5}
                \<and> position_count (isin gw_df starter_ids) ''MID'' \<in> {2..5}
                \<and> position_count (isin gw_df starter_ids) ''FWD'' \<in> {1..3}"
          by auto
        have v: "validate_team gw_df squad_ids starter_ids bench_ids captain_id vice_id
                   = validate_bench gw_df starter_ids bench_ids captain_id vice_id"
          using c1 None True sNone by (simp add: validate_team_def)
        from validate_bench_result [of gw_df starter_ids bench_ids captain_id vice_id]
        obtain res where
          res: "validate_bench gw_df starter_ids bench_ids captain_id vice_id = Inr res"
            "map_option check_of res
               = first_failure_from 6
                   [distinct (map fst bench_ids) \<and> set (map fst bench_ids) = {1, 2, 3, 4},
                    (\<exists>p. bench_player gw_df bench_ids 1 = Some p \<and> position p = ''GK''),
                    list_all (\<lambda>k. \<exists>p. bench_player gw_df bench_ids k = Some p \<and> position p \<noteq> ''GK'')
                      [2, 3, 4],
                    captain_id \<noteq> vice_id,
                    captain_id \<in> set starter_ids,
                    vice_id \<in> set starter_ids]"
          by blast
        have "spec_checks gw_df squad_ids starter_ids bench_ids captain_id vice_id
                = True # True # True # True # True #
                   [distinct (map fst bench_ids) \<and> set (map fst bench_ids) = {1, 2, 3, 4},
                    (\<exists>p. bench_player gw_df bench_ids 1 = Some p \<and> position p = ''GK''),
                    list_all (\<lambda>k. \<exists>p. bench_player gw_df bench_ids k = Some p \<and> position p \<noteq> ''GK'')
                      [2, 3, 4],
                    captain_id \<noteq> vice_id,
                    captain_id \<in> set starter_ids,
                    vice_id \<in> set starter_ids]"
          using c1 c2 c3 c45 by (simp add: spec_checks_def Let_def)
        then have "first_failure (spec_checks gw_df squad_ids starter_ids bench_ids captain_id vice_id)
                = map_option check_of res"
          by (simp only: first_failure_five res(2))
        with v res(1) show ?thesis by simp
      qed
    qed
  qed
qed

lemma ex_validate_team_same_armband:
  "validate_team ex_gw ex_squad ex_starters ex_bench 8 8 = Inr (Some CaptainIsVice)"
  by (simp add: validate_team_def ex_gw_def ex_squad_def ex_starters_def ex_bench_def isin_def
        expected_def position_count_def over_limit_def team_count_def validate_starters_def
        validate_bench_def rows_of_def validate_captaincy_def)

lemma ex_validate_team_two_faults:
  "validate_team ex_gw (tl ex_squad) ex_starters ex_bench 8 8 = Inr (Some (SquadSize 14))"
  by (simp add: validate_team_def ex_squad_def)

text \<open>
  The example team passes all eleven checks. With the captain also named as vice the
  ninth check is the first to fail; with a squad list of 14 ids as well, the first
  check fails and only its reason is returned.
\<close>

theorem validate_team_first_failing_check_witness:
  "validate_team ex_gw ex_squad ex_starters ex_bench 8 9 = Inr None
   \<and> first_failure (spec_checks ex_gw ex_squad ex_starters ex_bench 8 9) = None
   \<and> validate_team ex_gw ex_squad ex_starters ex_bench 8 8 = Inr (Some CaptainIsVice)
   \<and> first_failure (spec_checks ex_gw ex_squad ex_starters ex_bench 8 8) = Some 9
   \<and> validate_team ex_gw (tl ex_squad) ex_starters ex_bench 8 8 = Inr (Some (SquadSize 14))
   \<and> first_failure (spec_checks ex_gw (tl ex_squad) ex_starters ex_bench 8 8) = Some 1"
proof -
  from validate_team_first_failing_check [of ex_gw ex_squad ex_starters ex_bench 8 9]
    ex_validate_team
  have a: "first_failure (spec_checks ex_gw ex_squad ex_starters ex_bench 8 9) = None" by auto
  from validate_team_first_failing_check [of ex_gw ex_squad ex_starters ex_bench 8 8]
    ex_validate_team_same_armband
  have b: "first_failure (spec_checks ex_gw ex_squad ex_starters ex_bench 8 8) = Some 9" by auto
  from validate_team_first_failing_check [of ex_gw "tl ex_squad" ex_starters ex_bench 8 8]
    ex_validate_team_two_faults
  have c: "first_failure (spec_checks ex_gw (tl ex_squad) ex_starters ex_bench 8 8) = Some 1" by auto
  from ex_validate_team a ex_validate_team_same_armband b ex_validate_team_two_faults c
  show ?thesis by blast
qed

end
